theory Spec2Isabelle
  imports Main
begin

section \<open>JavaScript values the bot computes with\<close>

text \<open>
  The bot is one JavaScript module. Numbers that the source holds as \<open>BigInt\<close> are
  \<open>int\<close>; strings are \<open>string\<close>. \<open>toString\<close> of a number is its decimal spelling;
  \<open>digit_char\<close> is only ever asked for a digit below ten.
\<close>

definition digit_char :: "nat \<Rightarrow> char" where
  "digit_char d = ''0123456789'' ! d"

fun digits :: "nat \<Rightarrow> string" where
  "digits n =
     (if n < 10 then [digit_char n]
      else digits (n div 10) @ [digit_char (n mod 10)])"

declare digits.simps [simp del]

definition toString :: "int \<Rightarrow> string" where
  "toString i = (if i < 0 then CHR ''-'' # digits (nat (- i)) else digits (nat i))"

text \<open>
  \<open>BigInt(s)\<close> for a string: the decimal spellings that \<open>toString\<close> writes are read
  back; any other text is a \<open>SyntaxError\<close> (\<open>None\<close>).
\<close>

definition digit_val :: "char \<Rightarrow> nat option" where
  "digit_val c =
     (let n = (of_char c :: nat) in if 48 \<le> n \<and> n \<le> 57 then Some (n - 48) else None)"

fun parse_digits :: "nat \<Rightarrow> string \<Rightarrow> nat option" where
  "parse_digits acc [] = Some acc"
| "parse_digits acc (c # cs) =
     (case digit_val c of None \<Rightarrow> None | Some d \<Rightarrow> parse_digits (10 * acc + d) cs)"

definition BigInt_of_string :: "string \<Rightarrow> int option" where
  "BigInt_of_string s =
     (case s of
        [] \<Rightarrow> Some 0
      | c # cs \<Rightarrow>
          if c = CHR ''-'' \<and> cs \<noteq> [] then map_option (\<lambda>n. - int n) (parse_digits 0 cs)
          else map_option int (parse_digits 0 s))"

text \<open>\<open>BigInt\<close> division rounds towards zero.\<close>

definition bigint_div :: "int \<Rightarrow> int \<Rightarrow> int" where
  "bigint_div a b = sgn a * sgn b * (\<bar>a\<bar> div \<bar>b\<bar>)"

text \<open>\<open>String.prototype.toLowerCase\<close> on the ASCII letters an address is made of.\<close>

definition lower_char :: "char \<Rightarrow> char" where
  "lower_char c =
     (let n = (of_char c :: nat) in if 65 \<le> n \<and> n \<le> 90 then char_of (n + 32) else c)"

definition toLowerCase :: "string \<Rightarrow> string" where
  "toLowerCase s = map lower_char s"

text \<open>
  A JavaScript \<open>Set\<close> of strings keeps its members in insertion order; it is the list of
  its members, oldest first, without repetition. \<open>Array.from\<close> of the set is that list.
\<close>

type_synonym js_set = "string list"

definition Set_has :: "js_set \<Rightarrow> string \<Rightarrow> bool" where
  "Set_has S k = (k \<in> set S)"

definition Set_add :: "js_set \<Rightarrow> string \<Rightarrow> js_set" where
  "Set_add S k = (if k \<in> set S then S else S @ [k])"

definition Set_new :: "string list \<Rightarrow> js_set" where
  "Set_new xs = foldl Set_add [] xs"

definition Array_from :: "js_set \<Rightarrow> string list" where
  "Array_from S = S"

text \<open>\<open>arr.slice(start)\<close> for a start index that is not negative.\<close>

definition slice_from :: "nat \<Rightarrow> 'a list \<Rightarrow> 'a list" where
  "slice_from start xs = drop start xs"

section \<open>Configuration, records and effects\<close>

text \<open>
  The module's constants, read from the environment and normalised by \<open>validateConfig\<close>.
\<close>

record settings =
  NORMALIZED_DISPENSER_ADDRESS :: string
  NORMALIZED_TRACKED_TOKEN_ADDRESS :: string
  NORMALIZED_UPVOTE_APP_ADDRESS :: string
  REQUIRED_UPVOTES :: int

definition CACHE_TTL_MS :: int where
  "CACHE_TTL_MS = 60 * 1000"

definition HEARTBEAT_INTERVAL :: nat where
  "HEARTBEAT_INTERVAL = 10"

definition NET_PROTOCOL_ADDRESS :: string where
  "NET_PROTOCOL_ADDRESS = ''0x00000000B24D62781dB359b07880a105cD0b64e6''"

text \<open>An \<open>Error\<close> object, as the catch blocks read it.\<close>

datatype js_error = Error (message: string) (stack: string)

text \<open>The snapshot \<open>getConfig\<close> returns, and the cache that holds it.\<close>

record config =
  upvotesRequired :: string
  queuedNFTCount :: nat
  queuedNFTs :: "string list"
  lastUpdated :: int

record cache =
  timestamp :: int
  data :: config

text \<open>
  A delivered \<open>Upvoted\<close> log, with the fields the handler reads. By the event's ABI the
  user and the token are addresses and \<open>numUpvotes\<close> is a \<open>uint256\<close>, which arrives as a
  \<open>BigInt\<close>; the handler guards against a missing token and a missing block number
  (\<open>log.args.token || ''\<close>, \<open>log.blockNumber?.\<close>), and so does the record.
\<close>

record log =
  transactionHash :: string
  logIndex :: nat
  blockNumber :: "int option"
  arg_user :: string
  arg_token :: "string option"
  arg_numUpvotes :: int

text \<open>The request \<open>simulateContract\<close> prepares and \<open>writeContract\<close> submits.\<close>

record request =
  req_address :: string
  req_functionName :: string
  req_user :: string
  req_amount :: int
  req_gasPrice :: int

text \<open>The object \<open>tick\<close> writes to \<open>net_state.json\<close>.\<close>

record persisted =
  p_lastProcessed :: string
  p_tip :: string
  p_lastProcessedBlock :: string
  p_processed :: "string list"

text \<open>
  Field values of a log record, and the records of the two log files: the daily file
  written by \<open>logToFile\<close> (type, level, data) and \<open>dispenser-actions.jsonl\<close> written by
  \<open>logDispenserAction\<close> (action, data). The timestamp each writer adds, the JSON line
  encoding and the rotation of the daily files are left out.
\<close>

datatype jv = JStr string | JNum int | JArr "string list" | JUndefined

datatype entry = Entry (etype: string) (elevel: string) (efields: "(string \<times> jv) list")

datatype action = Action (aname: string) (afields: "(string \<times> jv) list")

datatype rpc =
    ReadDispenserConfig
  | ReadTip
  | GetGasPrice
  | SimulateContract request
  | WriteContract request

text \<open>
  Everything a handler does to the outside, and the update of the in-memory set, in the
  order the statements run: a console line, a log-file record, a dispenser-log record, a
  key added to \<open>processedLogIds\<close>, a call of \<open>addUpvotesToDispenser\<close>, a network
  request, and the write of the state file.
\<close>

datatype effect =
    Console string
  | LogFile entry
  | DispenserLog action
  | ProcessedAdd string
  | Dispatch string int
  | Rpc rpc
  | WriteState persisted

text \<open>
  What the outside answers. Each answer is a function of the number of answers given so
  far (\<open>step\<close> of the world), so that two calls may be answered differently. The two
  reads of \<open>getConfig\<close> run under one \<open>Promise.all\<close> and have one answer.
\<close>

record env =
  Date_now :: "nat \<Rightarrow> int"
  readDispenserConfig :: "nat \<Rightarrow> js_error + (int \<times> int list)"
  readTip :: "nat \<Rightarrow> js_error + int"
  getGasPrice :: "nat \<Rightarrow> js_error + int"
  simulateContract :: "nat \<Rightarrow> request \<Rightarrow> js_error option"
  writeContract :: "nat \<Rightarrow> request \<Rightarrow> js_error + string"
  writeFileSync :: "nat \<Rightarrow> js_error option"

text \<open>The module's variables (its STATE section), the state file, and what has happened.\<close>

record world =
  processedLogIds :: js_set
  lastProcessedBlock :: int
  configCache :: "cache option"
  heartbeatCount :: nat
  stateFile :: "persisted option"
  step :: nat
  trace :: "effect list"

definition emit :: "effect \<Rightarrow> world \<Rightarrow> world" where
  "emit e w = w\<lparr>trace := trace w @ [e]\<rparr>"

definition next_step :: "world \<Rightarrow> world" where
  "next_step w = w\<lparr>step := Suc (step w)\<rparr>"

definition logInfo :: "string \<Rightarrow> (string \<times> jv) list \<Rightarrow> world \<Rightarrow> world" where
  "logInfo ty d w = emit (LogFile (Entry ty ''info'' d)) w"

definition logWarning :: "string \<Rightarrow> (string \<times> jv) list \<Rightarrow> world \<Rightarrow> world" where
  "logWarning ty d w = emit (LogFile (Entry ty ''warn'' d)) w"

definition logError :: "string \<Rightarrow> js_error \<Rightarrow> (string \<times> jv) list \<Rightarrow> world \<Rightarrow> world" where
  "logError ty err d w =
     emit (LogFile (Entry ty ''error''
       ((''error'', JStr (message err)) # (''stack'', JStr (stack err)) # d))) w"

definition logDispenserAction :: "string \<Rightarrow> (string \<times> jv) list \<Rightarrow> world \<Rightarrow> world" where
  "logDispenserAction a d w = emit (DispenserLog (Action a d)) w"

definition console :: "string \<Rightarrow> world \<Rightarrow> world" where
  "console line w = emit (Console line) w"

definition basescan :: "string \<Rightarrow> string" where
  "basescan tx = ''https://basescan.org/tx/'' @ tx"

section \<open>The remote config cache: \<open>getConfig\<close>\<close>

text \<open>
  \<open>configCache.timestamp && now - configCache.timestamp < CACHE_TTL_MS\<close>: the cached
  snapshot, when there is one that is fresh. The empty object \<open>{}\<close> is \<open>None\<close>.
\<close>

definition cache_hit :: "cache option \<Rightarrow> int \<Rightarrow> config option" where
  "cache_hit c now =
     (case c of
        None \<Rightarrow> None
      | Some e \<Rightarrow>
          if timestamp e \<noteq> 0 \<and> now - timestamp e < CACHE_TTL_MS then Some (data e) else None)"

definition default_config :: config where
  "default_config =
     \<lparr>upvotesRequired = ''200'', queuedNFTCount = 0, queuedNFTs = [], lastUpdated = 0\<rparr>"

definition getConfig :: "settings \<Rightarrow> env \<Rightarrow> world \<Rightarrow> config \<times> world" where
  "getConfig st env w0 =
     (let now = Date_now env (step w0);
          w = next_step w0
      in case cache_hit (configCache w) now of
           Some d \<Rightarrow> (d, w)
         | None \<Rightarrow>
            (let w1 = next_step (emit (Rpc ReadDispenserConfig) w)
             in case readDispenserConfig env (step w) of
                  Inr (required, queued) \<Rightarrow>
                    (let cfg = \<lparr>upvotesRequired = toString required,
                                queuedNFTCount = length queued,
                                queuedNFTs = map toString queued,
                                lastUpdated = now\<rparr>;
                         w2 = logInfo ''config_updated''
                                [(''upvotesRequired'', JStr (upvotesRequired cfg)),
                                 (''queuedNFTCount'', JNum (int (queuedNFTCount cfg))),
                                 (''queuedNFTs'', JArr (queuedNFTs cfg)),
                                 (''lastUpdated'', JNum (lastUpdated cfg))] w1;
                         w3 = logDispenserAction ''config_updated''
                                [(''upvotesRequired'', JStr (toString required)),
                                 (''queuedNFTCount'', JNum (int (length queued))),
                                 (''queuedNFTs'', JArr (map toString queued))] w2;
                         w4 = w3\<lparr>configCache := Some \<lparr>timestamp = now, data = cfg\<rparr>\<rparr>
                     in (cfg, w4))
                | Inl err \<Rightarrow>
                    (let w2 = console (''[CONFIG_ERROR] Failed to fetch dispenser config: ''
                                         @ message err) w1;
                         w3 = logError ''config_fetch_error'' err
                                [(''dispenserAddress'', JStr (NORMALIZED_DISPENSER_ADDRESS st))] w2
                     in case configCache w3 of
                          Some e \<Rightarrow> (data e, console ''Using cached config data'' w3)
                        | None \<Rightarrow> (default_config, w3))))"

section \<open>The action dispatcher: \<open>addUpvotesToDispenser\<close>\<close>

text \<open>The arguments of \<open>simulateContract\<close>, which come back as the request to submit.\<close>

definition addUpvotes_request :: "settings \<Rightarrow> string \<Rightarrow> int \<Rightarrow> int \<Rightarrow> request" where
  "addUpvotes_request st user amount gasPrice =
     \<lparr>req_address = NORMALIZED_DISPENSER_ADDRESS st,
      req_functionName = ''addUpvotes'',
      req_user = user,
      req_amount = amount,
      req_gasPrice = bigint_div (gasPrice * 120) 100\<rparr>"

text \<open>The catch block: the error is printed and logged, and \<open>null\<close> is returned.\<close>

definition dispenser_call_failed ::
  "settings \<Rightarrow> string \<Rightarrow> int \<Rightarrow> js_error \<Rightarrow> world \<Rightarrow> string option \<times> world" where
  "dispenser_call_failed st user amount err w =
     (let w1 = console (''[DISPENSER_ERROR] Failed to call addUpvotes: '' @ message err) w;
          w2 = logError ''dispenser_call_error'' err
                 [(''user'', JStr user),
                  (''amount'', JStr (toString amount)),
                  (''dispenserAddress'', JStr (NORMALIZED_DISPENSER_ADDRESS st))] w1
      in (None, w2))"

definition addUpvotesToDispenser ::
  "settings \<Rightarrow> env \<Rightarrow> world \<Rightarrow> string \<Rightarrow> int \<Rightarrow> string option \<times> world" where
  "addUpvotesToDispenser st env w0 user amount =
     (let w = emit (Dispatch user amount) w0;
          w1 = next_step (emit (Rpc GetGasPrice) w)
      in case getGasPrice env (step w) of
           Inl err \<Rightarrow> dispenser_call_failed st user amount err w1
         | Inr gasPrice \<Rightarrow>
            (let req = addUpvotes_request st user amount gasPrice;
                 w2 = next_step (emit (Rpc (SimulateContract req)) w1)
             in case simulateContract env (step w1) req of
                  Some err \<Rightarrow> dispenser_call_failed st user amount err w2
                | None \<Rightarrow>
                   (let w3 = next_step (emit (Rpc (WriteContract req)) w2)
                    in case writeContract env (step w2) req of
                         Inl err \<Rightarrow> dispenser_call_failed st user amount err w3
                       | Inr hash \<Rightarrow>
                          (let w4 = logInfo ''dispenser_call''
                                      [(''hash'', JStr hash),
                                       (''user'', JStr user),
                                       (''amount'', JStr (toString amount))] w3;
                               w5 = console (''[DISPENSER] Called addUpvotes for '' @ user
                                      @ '' with '' @ toString amount @ '' votes. Hash: ''
                                      @ hash) w4
                           in (Some hash, w5)))))"

section \<open>The event watcher: the \<open>onLogs\<close> callback of \<open>watchUpvotes\<close>\<close>

definition log_id :: "log \<Rightarrow> string" where
  "log_id l = transactionHash l @ '':'' @ digits (logIndex l)"

text \<open>The token of the log, lower-cased; a missing token reads as the empty string.\<close>

definition token_text :: "log \<Rightarrow> string" where
  "token_text l = (case arg_token l of None \<Rightarrow> [] | Some t \<Rightarrow> t)"

definition log_token :: "log \<Rightarrow> string" where
  "log_token l = toLowerCase (token_text l)"

text \<open>\<open>log.blockNumber?.toString()\<close>\<close>

definition blockNumber_field :: "log \<Rightarrow> jv" where
  "blockNumber_field l =
     (case blockNumber l of None \<Rightarrow> JUndefined | Some b \<Rightarrow> JStr (toString b))"

text \<open>
  The loop body for one log, in the order of the source. First the statements of a
  matched event up to the inventory check: the key is added to the set and
  \<open>upvote_event_seen\<close> is logged.
\<close>

definition mark_seen :: "settings \<Rightarrow> world \<Rightarrow> log \<Rightarrow> world" where
  "mark_seen st w l =
     (let w1 = emit (ProcessedAdd (log_id l))
                 (w\<lparr>processedLogIds := Set_add (processedLogIds w) (log_id l)\<rparr>)
      in logInfo ''upvote_event_seen''
           [(''user'', JStr (arg_user l)),
            (''token'', JStr (log_token l)),
            (''numUpvotes'', JStr (toString (arg_numUpvotes l))),
            (''txHash'', JStr (transactionHash l)),
            (''blockNumber'', blockNumber_field l),
            (''basescanTx'', JStr (basescan (transactionHash l)))] w1)"

text \<open>The branch taken when there is no inventory; it ends with \<open>continue\<close>.\<close>

definition report_depleted :: "settings \<Rightarrow> log \<Rightarrow> world \<Rightarrow> world" where
  "report_depleted st l w =
     (let w1 = console (''[DISPENSER] Out of NFTs! User '' @ arg_user l @ '' upvoted ''
                 @ toString (REQUIRED_UPVOTES st)
                 @ '' times but no inventory available.'') w;
          w2 = logWarning ''dispenser_depleted''
                 [(''user'', JStr (arg_user l)),
                  (''txHash'', JStr (transactionHash l)),
                  (''blockNumber'', blockNumber_field l)] w1
      in logDispenserAction ''inventory_depleted''
           [(''user'', JStr (arg_user l)),
            (''sourceTx'', JStr (transactionHash l)),
            (''sourceBasescan'', JStr (basescan (transactionHash l))),
            (''note'', JStr (''User upvoted '' @ toString (REQUIRED_UPVOTES st)
               @ '' times but no NFTs available''))] w2)"

text \<open>\<open>if (awardHash)\<close>: \<open>null\<close> and the empty string are falsy.\<close>

definition truthy :: "string option \<Rightarrow> string option" where
  "truthy h = (case h of None \<Rightarrow> None | Some s \<Rightarrow> if s = [] then None else Some s)"

text \<open>The two branches after the dispatch has returned.\<close>

definition report_award :: "settings \<Rightarrow> log \<Rightarrow> config \<Rightarrow> string option \<Rightarrow> world \<Rightarrow> world" where
  "report_award st l cfg awardHash w =
     (case truthy awardHash of
        Some h \<Rightarrow>
         (let w1 = console (''[DISPENSER] NFT awarded to '' @ arg_user l
                     @ ''! Transaction: '' @ basescan h) w;
              w2 = logInfo ''award_success''
                     [(''user'', JStr (arg_user l)),
                      (''amount'', JStr (toString (REQUIRED_UPVOTES st))),
                      (''sourceTx'', JStr (transactionHash l)),
                      (''dispenserTx'', JStr h),
                      (''sourceBasescan'', JStr (basescan (transactionHash l))),
                      (''dispenserBasescan'', JStr (basescan h))] w1
          in logDispenserAction ''nft_awarded''
               [(''user'', JStr (arg_user l)),
                (''amount'', JStr (toString (REQUIRED_UPVOTES st))),
                (''sourceTx'', JStr (transactionHash l)),
                (''dispenserTx'', JStr h),
                (''sourceBasescan'', JStr (basescan (transactionHash l))),
                (''dispenserBasescan'', JStr (basescan h)),
                (''inventoryBefore'', JStr (toString (int (queuedNFTCount cfg))))] w2)
      | None \<Rightarrow>
         (let w1 = console (''[DISPENSER] Failed to award NFT to '' @ arg_user l
                     @ ''. Check logs for details.'') w;
              w2 = logWarning ''award_failed''
                     [(''user'', JStr (arg_user l)),
                      (''amount'', JStr (toString (REQUIRED_UPVOTES st))),
                      (''sourceTx'', JStr (transactionHash l))] w1
          in logDispenserAction ''award_failed''
               [(''user'', JStr (arg_user l)),
                (''amount'', JStr (toString (REQUIRED_UPVOTES st))),
                (''sourceTx'', JStr (transactionHash l)),
                (''sourceBasescan'', JStr (basescan (transactionHash l))),
                (''error'', JStr ''Transaction failed'')] w2))"

text \<open>
  \<open>if (log.blockNumber && BigInt(log.blockNumber) > lastProcessedBlock)\<close>: \<open>null\<close> and
  \<open>0n\<close> are falsy.
\<close>

definition track_block :: "log \<Rightarrow> world \<Rightarrow> world" where
  "track_block l w =
     (case blockNumber l of
        None \<Rightarrow> w
      | Some b \<Rightarrow>
          if b \<noteq> 0 \<and> b > lastProcessedBlock w then w\<lparr>lastProcessedBlock := b\<rparr> else w)"

text \<open>The loop body: each \<open>continue\<close> returns the world as it is at that point.\<close>

definition onLog :: "settings \<Rightarrow> env \<Rightarrow> world \<Rightarrow> log \<Rightarrow> world" where
  "onLog st env w l =
     (if Set_has (processedLogIds w) (log_id l) then w
      else if log_token l \<noteq> toLowerCase (NORMALIZED_TRACKED_TOKEN_ADDRESS st) then w
      else if arg_numUpvotes l \<noteq> REQUIRED_UPVOTES st then w
      else
       (let w1 = mark_seen st w l;
            (cfg, w2) = getConfig st env w1
        in if queuedNFTCount cfg = 0 then report_depleted st l w2
           else
            (let (awardHash, w3) =
                   addUpvotesToDispenser st env w2 (arg_user l) (REQUIRED_UPVOTES st);
                 w4 = report_award st l cfg awardHash w3
             in track_block l w4)))"

text \<open>\<open>for (const log of logs)\<close>\<close>

definition onLogs :: "settings \<Rightarrow> env \<Rightarrow> world \<Rightarrow> log list \<Rightarrow> world" where
  "onLogs st env w logs = foldl (onLog st env) w logs"

section \<open>The heartbeat: \<open>getCurrentTip\<close> and \<open>tick\<close>\<close>

definition getCurrentTip :: "settings \<Rightarrow> env \<Rightarrow> world \<Rightarrow> int \<times> world" where
  "getCurrentTip st env w =
     (let w1 = next_step (emit (Rpc ReadTip) w)
      in case readTip env (step w) of
           Inr n \<Rightarrow> (n, w1)
         | Inl err \<Rightarrow>
            (let w2 = console (''[NET_PROTOCOL_ERROR] Failed to get message count: ''
                                 @ message err) w1;
                 w3 = logError ''net_protocol_error'' err
                        [(''netProtocolAddress'', JStr NET_PROTOCOL_ADDRESS),
                         (''upvoteAppAddress'', JStr (NORMALIZED_UPVOTE_APP_ADDRESS st))] w2
             in (0, w3)))"

text \<open>
  \<open>processed.slice(Math.max(0, processed.length - 500))\<close>: the subtraction is over the
  integers, and \<open>Math.max\<close> brings a negative start back to 0.
\<close>

definition trim_processed :: "string list \<Rightarrow> string list" where
  "trim_processed processed =
     slice_from (nat (max 0 (int (length processed) - 500))) processed"

definition tick :: "settings \<Rightarrow> env \<Rightarrow> world \<Rightarrow> world" where
  "tick st env w0 =
     (let (cfg, w1) = getConfig st env w0;
          (currentTip, w2) = getCurrentTip st env w1;
          processed = Array_from (processedLogIds w2);
          trimmed = trim_processed processed;
          state = \<lparr>p_lastProcessed = toString currentTip,
                   p_tip = toString currentTip,
                   p_lastProcessedBlock = toString (lastProcessedBlock w2),
                   p_processed = trimmed\<rparr>;
          w3 = next_step w2
      in case writeFileSync env (step w2) of
           Some err \<Rightarrow>
            (let w4 = console (''[TICK_ERROR] Failed to update bot state: '' @ message err) w3
             in logError ''tick_error'' err
                  [(''heartbeatCount'', JStr (toString (int (heartbeatCount w4)))),
                   (''lastProcessedBlock'', JStr (toString (lastProcessedBlock w4)))] w4)
         | None \<Rightarrow>
            (let w4 = emit (WriteState state) (w3\<lparr>stateFile := Some state\<rparr>);
                 w5 = w4\<lparr>heartbeatCount := Suc (heartbeatCount w4)\<rparr>;
                 w6 = (if heartbeatCount w5 mod HEARTBEAT_INTERVAL = 0
                       then console (''[HEARTBEAT] Bot healthy - Required: ''
                              @ upvotesRequired cfg
                              @ '', NFTs: '' @ toString (int (queuedNFTCount cfg))
                              @ '', Tip: '' @ toString currentTip
                              @ '', Block: '' @ toString (lastProcessedBlock w5)
                              @ '', Processed: ''
                              @ toString (int (length (processedLogIds w5)))) w5
                       else w5)
             in case configCache w6 of
                  None \<Rightarrow> w6
                | Some e \<Rightarrow>
                    if upvotesRequired (data e) \<noteq> upvotesRequired cfg then
                      logDispenserAction ''threshold_changed''
                        [(''oldValue'', JStr (upvotesRequired (data e))),
                         (''newValue'', JStr (upvotesRequired cfg))]
                        (console (''[CONFIG] Upvotes required changed to: ''
                                    @ upvotesRequired cfg) w6)
                    else w6))"

section \<open>Start-up: the module's variables and the load of \<open>net_state.json\<close>\<close>

text \<open>
  The argument is the parsed content of the state file; \<open>None\<close> when the file is missing
  or is not JSON (\<open>readFileSync\<close> or \<open>JSON.parse\<close> throws). A file is taken to hold the
  object \<open>tick\<close> writes. When \<open>BigInt\<close> rejects the stored block number, the catch
  block runs after the set was restored.
\<close>

definition initial_world :: "persisted option \<Rightarrow> world" where
  "initial_world file =
     \<lparr>processedLogIds = [], lastProcessedBlock = 0, configCache = None,
      heartbeatCount = 0, stateFile = file, step = 0, trace = []\<rparr>"

definition load_state :: "persisted option \<Rightarrow> world" where
  "load_state file =
     (let w0 = initial_world file
      in case file of
           None \<Rightarrow> console ''No state file found, starting from 0'' w0
         | Some state \<Rightarrow>
            (let w1 = w0\<lparr>processedLogIds := Set_new (p_processed state)\<rparr>;
                 started = (\<lambda>w. console (''Starting from app message index: 0 (block ''
                              @ toString (lastProcessedBlock w) @ '')'') w)
             in if p_lastProcessedBlock state = [] then started w1
                else case BigInt_of_string (p_lastProcessedBlock state) of
                       None \<Rightarrow> console ''No state file found, starting from 0'' w1
                     | Some b \<Rightarrow> started (w1\<lparr>lastProcessedBlock := b\<rparr>)))"

section \<open>The event loop\<close>

text \<open>
  After start-up the process runs two callbacks: \<open>onLogs\<close> for each delivered batch and
  \<open>tick\<close> on the timer. A run is a sequence of callbacks, each taken to its end before
  the next one starts; two callbacks suspended at an \<open>await\<close> and resumed in turn are
  not part of the model.
\<close>

datatype callback = Deliver "log list" | Tick

definition run_callback :: "settings \<Rightarrow> env \<Rightarrow> world \<Rightarrow> callback \<Rightarrow> world" where
  "run_callback st env w c =
     (case c of Deliver logs \<Rightarrow> onLogs st env w logs | Tick \<Rightarrow> tick st env w)"

definition run :: "settings \<Rightarrow> env \<Rightarrow> world \<Rightarrow> callback list \<Rightarrow> world" where
  "run st env w cs = foldl (run_callback st env) w cs"

section \<open>Reading the trace\<close>

definition is_Dispatch :: "effect \<Rightarrow> bool" where
  "is_Dispatch e = (case e of Dispatch u a \<Rightarrow> True | _ \<Rightarrow> False)"

text \<open>A network request made by the dispatcher.\<close>

definition is_dispatch_rpc :: "effect \<Rightarrow> bool" where
  "is_dispatch_rpc e =
     (case e of
        Rpc GetGasPrice \<Rightarrow> True
      | Rpc (SimulateContract r) \<Rightarrow> True
      | Rpc (WriteContract r) \<Rightarrow> True
      | _ \<Rightarrow> False)"

definition dispatches :: "effect list \<Rightarrow> effect list" where
  "dispatches es = filter (\<lambda>e. is_Dispatch e \<or> is_dispatch_rpc e) es"

definition log_entries :: "effect list \<Rightarrow> entry list" where
  "log_entries es = concat (map (\<lambda>e. case e of LogFile r \<Rightarrow> [r] | _ \<Rightarrow> []) es)"

text \<open>
  Equality of two addresses up to the case of their letters, said without
  \<open>toLowerCase\<close>: position by position the characters are the same, or one is a capital
  letter and the other is its small letter.
\<close>

definition same_letter :: "char \<Rightarrow> char \<Rightarrow> bool" where
  "same_letter a b =
     (let m = (of_char a :: nat); n = (of_char b :: nat)
      in m = n \<or> (65 \<le> m \<and> m \<le> 90 \<and> n = m + 32) \<or> (65 \<le> n \<and> n \<le> 90 \<and> m = n + 32))"

definition case_insensitive_eq :: "string \<Rightarrow> string \<Rightarrow> bool" where
  "case_insensitive_eq s t = list_all2 same_letter s t"

text \<open>An effect that is neither a dispatch, nor an update of the set, nor a file write.\<close>

definition quiet :: "effect \<Rightarrow> bool" where
  "quiet e =
     (case e of
        Console s \<Rightarrow> True
      | LogFile r \<Rightarrow> True
      | DispenserLog a \<Rightarrow> True
      | Rpc ReadDispenserConfig \<Rightarrow> True
      | Rpc ReadTip \<Rightarrow> True
      | _ \<Rightarrow> False)"

text \<open>
  A matched event: none of the three \<open>continue\<close> tests at the head of the loop body
  holds, so the key is new, the token is the tracked one and the amount is the required
  one.
\<close>

definition matched :: "settings \<Rightarrow> world \<Rightarrow> log \<Rightarrow> bool" where
  "matched st w l =
     (\<not> Set_has (processedLogIds w) (log_id l)
      \<and> log_token l = toLowerCase (NORMALIZED_TRACKED_TOKEN_ADDRESS st)
      \<and> arg_numUpvotes l = REQUIRED_UPVOTES st)"

text \<open>What one call added to the trace.\<close>

definition new_effects :: "world \<Rightarrow> world \<Rightarrow> effect list" where
  "new_effects w w' = drop (length (trace w)) (trace w')"

section \<open>Example inputs\<close>

definition example_settings :: settings where
  "example_settings =
     \<lparr>NORMALIZED_DISPENSER_ADDRESS = ''0x7a250d5630B4cF539739dF2C5dAcb4c659F2488D'',
      NORMALIZED_TRACKED_TOKEN_ADDRESS = ''0x833589fCD6eDb6E08f4c7C32D4f71b54bdA02913'',
      NORMALIZED_UPVOTE_APP_ADDRESS = ''0x0ada882Dbbdc12388a1F9CA85d2d847088F747df'',
      REQUIRED_UPVOTES = 420\<rparr>"

text \<open>An outside where every call succeeds and three NFTs are queued.\<close>

definition example_env :: env where
  "example_env =
     \<lparr>Date_now = (\<lambda>n. 1700000000000 + 1000 * int n),
      readDispenserConfig = (\<lambda>n. Inr (420, [11, 12, 13])),
      readTip = (\<lambda>n. Inr 9000),
      getGasPrice = (\<lambda>n. Inr 1000000),
      simulateContract = (\<lambda>n r. None),
      writeContract = (\<lambda>n r.
        Inr ''0x5c504ed432cb51138bcf09aa5e8a410dd4a1e204ef84bfed1be16dfba1b22060''),
      writeFileSync = (\<lambda>n. None)\<rparr>"

text \<open>The same outside with an empty queue, with failing reads, and with a reverting call.\<close>

definition depleted_env :: env where
  "depleted_env = example_env\<lparr>readDispenserConfig := (\<lambda>n. Inr (420, []))\<rparr>"

definition offline_env :: env where
  "offline_env =
     example_env\<lparr>readDispenserConfig := (\<lambda>n. Inl (Error ''fetch failed'' ''at readContract''))\<rparr>"

definition revert_env :: env where
  "revert_env =
     example_env\<lparr>simulateContract :=
       (\<lambda>n r. Some (Error ''execution reverted: Not owner'' ''at simulateContract''))\<rparr>"

definition example_log :: log where
  "example_log =
     \<lparr>transactionHash = ''0x88df016429689c079f3b2f6ad39fa052532c56795b733da78a91ebe6a713944b'',
      logIndex = 7,
      blockNumber = Some 31000000,
      arg_user = ''0xd8dA6BF26964aF9D7eEd9e03E53415D37aA96045'',
      arg_token = Some ''0x833589fCD6eDb6E08f4c7C32D4f71b54bdA02913'',
      arg_numUpvotes = 420\<rparr>"

text \<open>The world of a first start, with no state file.\<close>

definition fresh_world :: world where
  "fresh_world = load_state None"

text \<open>
  A world that holds a snapshot older than the freshness window: the snapshot of a first
  successful read, a hundred answers later.
\<close>

definition stale_world :: world where
  "stale_world = (snd (getConfig example_settings example_env fresh_world))\<lparr>step := 100\<rparr>"

text \<open>
  A world whose set holds 501 keys: on a first start, the logs 0 to 500 of one transaction
  are delivered in one batch while the dispenser cannot be read, so that each is marked
  and reported as depleted.
\<close>

definition many_logs :: "log list" where
  "many_logs = map (\<lambda>n. example_log\<lparr>logIndex := n\<rparr>) [0..<501]"

definition many_keys :: "string list" where
  "many_keys = map log_id many_logs"

definition crowded_world :: world where
  "crowded_world = onLogs example_settings offline_env fresh_world many_logs"

text \<open>The state file a tick writes in that world, once the chain can be read again.\<close>

definition crowded_file :: persisted where
  "crowded_file =
     \<lparr>p_lastProcessed = ''9000'', p_tip = ''9000'', p_lastProcessedBlock = ''0'',
      p_processed = drop 1 many_keys\<rparr>"

section \<open>Frame and trace lemmas\<close>

lemmas effect_defs = emit_def next_step_def logInfo_def logWarning_def logError_def
  logDispenserAction_def console_def

lemma of_char_lower_char:
  "(of_char (lower_char c) :: nat) = (if 65 \<le> (of_char c :: nat) \<and> (of_char c :: nat) \<le> 90 then of_char c + 32 else of_char c)"
  by (simp add: lower_char_def Let_def)

lemma same_letter_lower: "same_letter a b \<longleftrightarrow> lower_char a = lower_char b"
proof -
  have "lower_char a = lower_char b \<longleftrightarrow> (of_char (lower_char a) :: nat) = of_char (lower_char b)"
    by simp
  also have "\<dots> \<longleftrightarrow> same_letter a b"
    unfolding of_char_lower_char same_letter_def Let_def by auto
  finally show ?thesis by simp
qed

lemma case_insensitive_eq_toLowerCase:
  "case_insensitive_eq s t \<longleftrightarrow> toLowerCase s = toLowerCase t"
  unfolding case_insensitive_eq_def toLowerCase_def
proof (induction s arbitrary: t)
  case Nil
  then show ?case by auto
next
  case (Cons a s)
  then show ?case by (cases t) (auto simp: same_letter_lower)
qed

lemma getConfig_frame:
  "processedLogIds (snd (getConfig st env w)) = processedLogIds w"
  "lastProcessedBlock (snd (getConfig st env w)) = lastProcessedBlock w"
  "heartbeatCount (snd (getConfig st env w)) = heartbeatCount w"
  "stateFile (snd (getConfig st env w)) = stateFile w"
  by (simp_all add: getConfig_def effect_defs Let_def split: option.splits sum.splits prod.splits)

lemma getConfig_trace:
  "\<exists>es. trace (snd (getConfig st env w)) = trace w @ es \<and> list_all quiet es"
  by (simp add: getConfig_def effect_defs Let_def quiet_def split: option.splits sum.splits prod.splits)

lemma addUpvotes_frame:
  "processedLogIds (snd (addUpvotesToDispenser st env w u a)) = processedLogIds w"
  "lastProcessedBlock (snd (addUpvotesToDispenser st env w u a)) = lastProcessedBlock w"
  "heartbeatCount (snd (addUpvotesToDispenser st env w u a)) = heartbeatCount w"
  "stateFile (snd (addUpvotesToDispenser st env w u a)) = stateFile w"
  "configCache (snd (addUpvotesToDispenser st env w u a)) = configCache w"
  by (simp_all add: addUpvotesToDispenser_def dispenser_call_failed_def effect_defs Let_def
      split: option.splits sum.splits prod.splits)

lemma addUpvotes_trace:
  "\<exists>es. trace (snd (addUpvotesToDispenser st env w u a)) = trace w @ Dispatch u a # es
     \<and> filter is_Dispatch es = [] \<and> (\<forall>k. ProcessedAdd k \<notin> set es)"
  by (simp add: addUpvotesToDispenser_def dispenser_call_failed_def effect_defs Let_def is_Dispatch_def
      split: option.splits sum.splits prod.splits)

lemma quiet_facts:
  "list_all quiet es \<Longrightarrow> filter is_Dispatch es = [] \<and> (\<forall>k. ProcessedAdd k \<notin> set es) \<and> dispatches es = []"
  by (induction es) (auto simp: quiet_def is_Dispatch_def is_dispatch_rpc_def dispatches_def split: effect.splits rpc.splits)

lemma mark_seen_fields:
  "processedLogIds (mark_seen st w l) = Set_add (processedLogIds w) (log_id l)"
  "lastProcessedBlock (mark_seen st w l) = lastProcessedBlock w"
  "heartbeatCount (mark_seen st w l) = heartbeatCount w"
  "stateFile (mark_seen st w l) = stateFile w"
  "configCache (mark_seen st w l) = configCache w"
  "step (mark_seen st w l) = step w"
  "trace (mark_seen st w l) = trace w @ [ProcessedAdd (log_id l), LogFile (Entry ''upvote_event_seen'' ''info''
           [(''user'', JStr (arg_user l)),
            (''token'', JStr (log_token l)),
            (''numUpvotes'', JStr (toString (arg_numUpvotes l))),
            (''txHash'', JStr (transactionHash l)),
            (''blockNumber'', blockNumber_field l),
            (''basescanTx'', JStr (basescan (transactionHash l)))])]"
  by (simp_all add: mark_seen_def effect_defs Let_def)

lemma report_depleted_fields:
  "processedLogIds (report_depleted st l w) = processedLogIds w"
  "lastProcessedBlock (report_depleted st l w) = lastProcessedBlock w"
  "heartbeatCount (report_depleted st l w) = heartbeatCount w"
  "stateFile (report_depleted st l w) = stateFile w"
  "configCache (report_depleted st l w) = configCache w"
  "step (report_depleted st l w) = step w"
  by (simp_all add: report_depleted_def effect_defs Let_def)

lemma report_depleted_trace:
  "\<exists>es. trace (report_depleted st l w) = trace w @ es \<and> list_all quiet es"
  by (simp add: report_depleted_def effect_defs Let_def quiet_def)

lemma report_award_fields:
  "processedLogIds (report_award st l cfg h w) = processedLogIds w"
  "lastProcessedBlock (report_award st l cfg h w) = lastProcessedBlock w"
  "heartbeatCount (report_award st l cfg h w) = heartbeatCount w"
  "stateFile (report_award st l cfg h w) = stateFile w"
  "configCache (report_award st l cfg h w) = configCache w"
  "step (report_award st l cfg h w) = step w"
  by (simp_all add: report_award_def effect_defs Let_def split: option.splits)

lemma report_award_trace:
  "\<exists>es. trace (report_award st l cfg h w) = trace w @ es \<and> list_all quiet es"
  by (simp add: report_award_def effect_defs Let_def quiet_def split: option.splits)

lemma track_block_fields:
  "processedLogIds (track_block l w) = processedLogIds w"
  "heartbeatCount (track_block l w) = heartbeatCount w"
  "stateFile (track_block l w) = stateFile w"
  "configCache (track_block l w) = configCache w"
  "step (track_block l w) = step w"
  "trace (track_block l w) = trace w"
  "lastProcessedBlock w \<le> lastProcessedBlock (track_block l w)"
  by (simp_all add: track_block_def split: option.splits)

text \<open>The shape of what handling one log does.\<close>

lemma onLog_cases:
  "onLog st env w l = w \<or>
   (log_id l \<notin> set (processedLogIds w) \<and>
    processedLogIds (onLog st env w l) = processedLogIds w @ [log_id l] \<and>
    (\<exists>es. trace (onLog st env w l) = trace w @ ProcessedAdd (log_id l) # es \<and>
       (\<forall>k. ProcessedAdd k \<notin> set es) \<and> length (filter is_Dispatch es) \<le> 1))"
proof (cases "onLog st env w l = w")
  case True
  then show ?thesis by simp
next
  case False
  then have nh: "log_id l \<notin> set (processedLogIds w)"
    by (auto simp: onLog_def Set_has_def split: if_splits)
  from False have m: "log_token l = toLowerCase (NORMALIZED_TRACKED_TOKEN_ADDRESS st)"
    "arg_numUpvotes l = REQUIRED_UPVOTES st"
    by (auto simp: onLog_def split: if_splits)
  obtain cfg w2 where g: "getConfig st env (mark_seen st w l) = (cfg, w2)"
    by (cases "getConfig st env (mark_seen st w l)")
  from getConfig_trace[of st env "mark_seen st w l"] g
  obtain es1 where es1: "trace w2 = trace (mark_seen st w l) @ es1" "list_all quiet es1"
    by auto
  from getConfig_frame(1)[of st env "mark_seen st w l"] g
  have p2: "processedLogIds w2 = processedLogIds w @ [log_id l]"
    using nh by (simp add: mark_seen_fields Set_add_def)
  show ?thesis
  proof (cases "queuedNFTCount cfg = 0")
    case True
    then have eq: "onLog st env w l = report_depleted st l w2"
      using nh m g by (simp add: onLog_def Set_has_def)
    from report_depleted_trace[of st l w2]
    obtain es2 where es2: "trace (report_depleted st l w2) = trace w2 @ es2" "list_all quiet es2"
      by auto
    let ?es = "LogFile (Entry ''upvote_event_seen'' ''info''
           [(''user'', JStr (arg_user l)),
            (''token'', JStr (log_token l)),
            (''numUpvotes'', JStr (toString (arg_numUpvotes l))),
            (''txHash'', JStr (transactionHash l)),
            (''blockNumber'', blockNumber_field l),
            (''basescanTx'', JStr (basescan (transactionHash l)))]) # es1 @ es2"
    have "trace (onLog st env w l) = trace w @ ProcessedAdd (log_id l) # ?es"
      by (simp add: eq es1 es2 mark_seen_fields)
    moreover have "(\<forall>k. ProcessedAdd k \<notin> set ?es) \<and> length (filter is_Dispatch ?es) \<le> 1"
      using quiet_facts[OF es1(2)] quiet_facts[OF es2(2)] by (auto simp: is_Dispatch_def)
    ultimately show ?thesis
      using nh p2 by (auto simp: eq report_depleted_fields)
  next
    case False
    obtain h w3 where a: "addUpvotesToDispenser st env w2 (arg_user l) (REQUIRED_UPVOTES st) = (h, w3)"
      by (cases "addUpvotesToDispenser st env w2 (arg_user l) (REQUIRED_UPVOTES st)")
    from False have eq: "onLog st env w l = track_block l (report_award st l cfg h w3)"
      using nh m g a by (simp add: onLog_def Set_has_def)
    from addUpvotes_trace[of st env w2 "arg_user l" "REQUIRED_UPVOTES st"] a
    obtain es2 where es2: "trace w3 = trace w2 @ Dispatch (arg_user l) (REQUIRED_UPVOTES st) # es2"
      "filter is_Dispatch es2 = []" "\<forall>k. ProcessedAdd k \<notin> set es2"
      by auto
    from report_award_trace[of st l cfg h w3]
    obtain es3 where es3: "trace (report_award st l cfg h w3) = trace w3 @ es3" "list_all quiet es3"
      by auto
    let ?es = "LogFile (Entry ''upvote_event_seen'' ''info''
           [(''user'', JStr (arg_user l)),
            (''token'', JStr (log_token l)),
            (''numUpvotes'', JStr (toString (arg_numUpvotes l))),
            (''txHash'', JStr (transactionHash l)),
            (''blockNumber'', blockNumber_field l),
            (''basescanTx'', JStr (basescan (transactionHash l)))]) # es1 @ Dispatch (arg_user l) (REQUIRED_UPVOTES st) # es2 @ es3"
    have "trace (onLog st env w l) = trace w @ ProcessedAdd (log_id l) # ?es"
      by (simp add: eq es1 es2 es3 mark_seen_fields track_block_fields)
    moreover have "(\<forall>k. ProcessedAdd k \<notin> set ?es) \<and> length (filter is_Dispatch ?es) \<le> 1"
      using quiet_facts[OF es1(2)] quiet_facts[OF es3(2)] es2(2,3) by (auto simp: is_Dispatch_def)
    moreover have "processedLogIds (onLog st env w l) = processedLogIds w @ [log_id l]"
      using addUpvotes_frame(1)[of st env w2 "arg_user l" "REQUIRED_UPVOTES st"] a p2
      by (simp add: eq track_block_fields report_award_fields)
    ultimately show ?thesis
      using nh by blast
  qed
qed

section \<open>Decimal spellings, sets and the heartbeat\<close>

lemma digit_val_digit_char: "d < 10 \<Longrightarrow> digit_val (digit_char d) = Some d"
proof -
  assume "d < 10"
  then have "d = 0 \<or> d = 1 \<or> d = 2 \<or> d = 3 \<or> d = 4
    \<or> d = 5 \<or> d = 6 \<or> d = 7 \<or> d = 8 \<or> d = 9"
    by arith
  then show ?thesis
    by (elim disjE) (simp_all add: digit_val_def digit_char_def)
qed

lemma parse_digits_append:
  "parse_digits acc (xs @ ys) =
     (case parse_digits acc xs of None \<Rightarrow> None | Some a \<Rightarrow> parse_digits a ys)"
  by (induction xs arbitrary: acc) (auto split: option.splits)

lemma digits_small: "n < 10 \<Longrightarrow> digits n = [digit_char n]"
  by (subst digits.simps) simp

lemma digits_large: "\<not> n < 10 \<Longrightarrow> digits n = digits (n div 10) @ [digit_char (n mod 10)]"
  by (subst digits.simps) simp

text \<open>Reading back a decimal spelling gives the number: the spelling determines it.\<close>

lemma parse_digits_digits: "parse_digits 0 (digits n) = Some n"
proof (induction n rule: digits.induct)
  case (1 n)
  show ?case
  proof (cases "n < 10")
    case True
    have "digits n = [digit_char n]" using True by (rule digits_small)
    moreover have "digit_val (digit_char n) = Some n" using True by (rule digit_val_digit_char)
    ultimately show ?thesis by simp
  next
    case False
    from 1 [OF False] have ih: "parse_digits 0 (digits (n div 10)) = Some (n div 10)" .
    have "n mod 10 < 10" by simp
    then have dv: "digit_val (digit_char (n mod 10)) = Some (n mod 10)"
      by (rule digit_val_digit_char)
    have "parse_digits 0 (digits n) = parse_digits 0 (digits (n div 10) @ [digit_char (n mod 10)])"
      using digits_large [OF False] by simp
    also have "\<dots> = parse_digits (n div 10) [digit_char (n mod 10)]"
      by (simp only: parse_digits_append ih option.case)
    also have "\<dots> = Some (10 * (n div 10) + n mod 10)"
      by (simp add: dv)
    also have "\<dots> = Some n" by simp
    finally show ?thesis .
  qed
qed

lemma digits_inj: "digits m = digits n \<Longrightarrow> m = n"
proof -
  assume "digits m = digits n"
  then have "parse_digits 0 (digits m) = parse_digits 0 (digits n)" by (rule arg_cong)
  then show "m = n" by (simp only: parse_digits_digits option.inject)
qed

lemma digits_not_Nil: "digits n \<noteq> []"
  by (cases "n < 10") (simp_all add: digits_small digits_large)

text \<open>\<open>BigInt\<close> reads back what \<open>toString\<close> wrote.\<close>

lemma BigInt_of_string_toString: "BigInt_of_string (toString i) = Some i"
proof (cases "i < 0")
  case True
  then show ?thesis
    by (simp add: BigInt_of_string_def toString_def digits_not_Nil parse_digits_digits)
next
  case False
  obtain c cs where d: "digits (nat i) = c # cs"
    using digits_not_Nil [of "nat i"] by (cases "digits (nat i)") auto
  have "parse_digits 0 (c # cs) = Some (nat i)"
    using parse_digits_digits [of "nat i"] d by simp
  then have "digit_val c \<noteq> None"
    by (auto split: option.splits)
  then have "c \<noteq> CHR ''-''"
    by (auto simp: digit_val_def)
  with False d parse_digits_digits [of "nat i"] show ?thesis
    by (simp add: BigInt_of_string_def toString_def)
qed

lemma set_Set_add: "set (Set_add S k) = insert k (set S)"
  by (auto simp: Set_add_def)

lemma set_foldl_Set_add: "set (foldl Set_add S xs) = set S \<union> set xs"
  by (induction xs arbitrary: S) (auto simp: set_Set_add)

lemma set_Set_new: "set (Set_new xs) = set xs"
  by (simp add: Set_new_def set_foldl_Set_add)

lemma load_state_processed:
  "processedLogIds (load_state (Some p)) = Set_new (p_processed p)"
  by (simp add: load_state_def initial_world_def effect_defs Let_def split: option.splits)

lemma trim_processed_drop:
  "trim_processed S = drop (length S - 500) S"
proof -
  have "nat (max 0 (int (length S) - 500)) = length S - 500" by simp
  then show ?thesis by (simp add: trim_processed_def slice_from_def)
qed

lemma getCurrentTip_frame:
  "processedLogIds (snd (getCurrentTip st env w)) = processedLogIds w"
  "lastProcessedBlock (snd (getCurrentTip st env w)) = lastProcessedBlock w"
  "heartbeatCount (snd (getCurrentTip st env w)) = heartbeatCount w"
  "stateFile (snd (getCurrentTip st env w)) = stateFile w"
  "configCache (snd (getCurrentTip st env w)) = configCache w"
  by (simp_all add: getCurrentTip_def effect_defs Let_def split: sum.splits)

lemma getCurrentTip_trace:
  "\<exists>es. trace (snd (getCurrentTip st env w)) = trace w @ es \<and> list_all quiet es"
  by (simp add: getCurrentTip_def effect_defs Let_def quiet_def split: sum.splits)

lemma quiet_not_WriteState: "list_all quiet es \<Longrightarrow> WriteState p \<notin> set es"
  by (induction es) (auto simp: quiet_def)

text \<open>A tick after its two reads: the write fails, or the trimmed state is written.\<close>

lemma tick_after_reads:
  assumes g: "getConfig st env w = (cfg, w1)"
      and t: "getCurrentTip st env w1 = (tip, w2)"
  shows "processedLogIds (tick st env w) = processedLogIds w2"
    and "lastProcessedBlock (tick st env w) = lastProcessedBlock w2"
    and "writeFileSync env (step w2) = Some err \<Longrightarrow>
           stateFile (tick st env w) = stateFile w2 \<and>
           (\<exists>es. trace (tick st env w) = trace w2 @ es \<and> list_all quiet es)"
    and "writeFileSync env (step w2) = None \<Longrightarrow>
           stateFile (tick st env w) =
             Some \<lparr>p_lastProcessed = toString tip, p_tip = toString tip,
                   p_lastProcessedBlock = toString (lastProcessedBlock w2),
                   p_processed = trim_processed (processedLogIds w2)\<rparr> \<and>
           (\<exists>es. trace (tick st env w) = trace w2 @
              WriteState \<lparr>p_lastProcessed = toString tip, p_tip = toString tip,
                   p_lastProcessedBlock = toString (lastProcessedBlock w2),
                   p_processed = trim_processed (processedLogIds w2)\<rparr> # es
              \<and> list_all quiet es)"
  using g t
  by (simp_all add: tick_def effect_defs Let_def quiet_def Array_from_def split: option.splits)

lemma tick_frame:
  "processedLogIds (tick st env w) = processedLogIds w"
  "lastProcessedBlock (tick st env w) = lastProcessedBlock w"
proof -
  obtain cfg w1 where g: "getConfig st env w = (cfg, w1)"
    by (cases "getConfig st env w")
  obtain tip w2 where t: "getCurrentTip st env w1 = (tip, w2)"
    by (cases "getCurrentTip st env w1")
  have "processedLogIds w2 = processedLogIds w" "lastProcessedBlock w2 = lastProcessedBlock w"
    using getConfig_frame [of st env w] getCurrentTip_frame [of st env w1] g t by simp_all
  then show "processedLogIds (tick st env w) = processedLogIds w"
    "lastProcessedBlock (tick st env w) = lastProcessedBlock w"
    using tick_after_reads(1,2) [OF g t] by simp_all
qed

lemma tick_written:
  assumes "WriteState p \<in> set (new_effects w (tick st env w))"
  shows "p_processed p = trim_processed (processedLogIds w) \<and> stateFile (tick st env w) = Some p"
proof -
  obtain cfg w1 where g: "getConfig st env w = (cfg, w1)"
    by (cases "getConfig st env w")
  obtain tip w2 where t: "getCurrentTip st env w1 = (tip, w2)"
    by (cases "getCurrentTip st env w1")
  from getConfig_trace [of st env w] g
  obtain es1 where es1: "trace w1 = trace w @ es1" "list_all quiet es1" by auto
  from getCurrentTip_trace [of st env w1] t
  obtain es2 where es2: "trace w2 = trace w1 @ es2" "list_all quiet es2" by auto
  have f: "processedLogIds w2 = processedLogIds w"
    using getConfig_frame [of st env w] getCurrentTip_frame [of st env w1] g t by simp
  show ?thesis
  proof (cases "writeFileSync env (step w2)")
    case (Some err)
    from tick_after_reads(3) [OF g t Some]
    obtain es where es: "trace (tick st env w) = trace w2 @ es" "list_all quiet es" by blast
    then have "new_effects w (tick st env w) = es1 @ es2 @ es"
      using es1 es2 by (simp add: new_effects_def)
    with assms quiet_not_WriteState [OF es1(2)] quiet_not_WriteState [OF es2(2)]
      quiet_not_WriteState [OF es(2)]
    show ?thesis by auto
  next
    case None
    let ?p = "\<lparr>p_lastProcessed = toString tip, p_tip = toString tip,
                   p_lastProcessedBlock = toString (lastProcessedBlock w2),
                   p_processed = trim_processed (processedLogIds w2)\<rparr>"
    from tick_after_reads(4) [OF g t None]
    obtain es where sf: "stateFile (tick st env w) = Some ?p"
      and es: "trace (tick st env w) = trace w2 @ WriteState ?p # es" "list_all quiet es"
      by blast
    then have "new_effects w (tick st env w) = es1 @ es2 @ WriteState ?p # es"
      using es1 es2 by (simp add: new_effects_def)
    with assms quiet_not_WriteState [OF es1(2)] quiet_not_WriteState [OF es2(2)]
      quiet_not_WriteState [OF es(2)]
    have "p = ?p" by auto
    with sf f show ?thesis by simp
  qed
qed

section \<open>Matched events and runs of the event loop\<close>

lemma matched_iff:
  "matched st w l \<longleftrightarrow>
     \<not> Set_has (processedLogIds w) (log_id l)
     \<and> case_insensitive_eq (token_text l) (NORMALIZED_TRACKED_TOKEN_ADDRESS st)
     \<and> arg_numUpvotes l = REQUIRED_UPVOTES st"
  by (simp add: matched_def log_token_def case_insensitive_eq_toLowerCase)

lemma onLog_not_matched: "\<not> matched st w l \<Longrightarrow> onLog st env w l = w"
  by (auto simp: matched_def onLog_def)

lemma onLog_matched:
  assumes "matched st w l" and "getConfig st env (mark_seen st w l) = (cfg, w2)"
  shows "queuedNFTCount cfg = 0 \<Longrightarrow> onLog st env w l = report_depleted st l w2"
    and "queuedNFTCount cfg \<noteq> 0 \<Longrightarrow>
           addUpvotesToDispenser st env w2 (arg_user l) (REQUIRED_UPVOTES st) = (h, w3) \<Longrightarrow>
           onLog st env w l = track_block l (report_award st l cfg h w3)"
  using assms by (simp_all add: matched_def onLog_def)

lemma onLog_new_effects:
  "new_effects w (onLog st env w l) = [] \<or>
   (\<not> Set_has (processedLogIds w) (log_id l) \<and>
    (\<exists>es. new_effects w (onLog st env w l) = ProcessedAdd (log_id l) # es \<and>
       length (filter is_Dispatch es) \<le> 1))"
  using onLog_cases [of st env w l]
  by (auto simp: new_effects_def Set_has_def)

lemma onLog_processed_subset:
  "set (processedLogIds w) \<subseteq> set (processedLogIds (onLog st env w l))"
  using onLog_cases [of st env w l] by auto

lemma onLog_marks:
  "matched st w l \<Longrightarrow> Set_has (processedLogIds (onLog st env w l)) (log_id l)"
proof -
  assume m: "matched st w l"
  obtain cfg w2 where g: "getConfig st env (mark_seen st w l) = (cfg, w2)"
    by (cases "getConfig st env (mark_seen st w l)")
  have p2: "log_id l \<in> set (processedLogIds w2)"
    using getConfig_frame(1) [of st env "mark_seen st w l"] g
    by (simp add: mark_seen_fields set_Set_add)
  show ?thesis
  proof (cases "queuedNFTCount cfg = 0")
    case True
    from onLog_matched(1) [OF m g True] p2 show ?thesis
      by (simp add: Set_has_def report_depleted_fields)
  next
    case False
    obtain h w3 where a: "addUpvotesToDispenser st env w2 (arg_user l) (REQUIRED_UPVOTES st) = (h, w3)"
      by (cases "addUpvotesToDispenser st env w2 (arg_user l) (REQUIRED_UPVOTES st)")
    from addUpvotes_frame(1) [of st env w2 "arg_user l" "REQUIRED_UPVOTES st"] a p2
    have "log_id l \<in> set (processedLogIds w3)" by simp
    with onLog_matched(2) [OF m g False a] show ?thesis
      by (simp add: Set_has_def track_block_fields report_award_fields)
  qed
qed

lemma onLog_block_mono: "lastProcessedBlock w \<le> lastProcessedBlock (onLog st env w l)"
proof (cases "matched st w l")
  case False
  then show ?thesis by (simp add: onLog_not_matched)
next
  case m: True
  obtain cfg w2 where g: "getConfig st env (mark_seen st w l) = (cfg, w2)"
    by (cases "getConfig st env (mark_seen st w l)")
  have b2: "lastProcessedBlock w2 = lastProcessedBlock w"
    using getConfig_frame(2) [of st env "mark_seen st w l"] g by (simp add: mark_seen_fields)
  show ?thesis
  proof (cases "queuedNFTCount cfg = 0")
    case True
    from onLog_matched(1) [OF m g True] b2 show ?thesis
      by (simp add: report_depleted_fields)
  next
    case False
    obtain h w3 where a: "addUpvotesToDispenser st env w2 (arg_user l) (REQUIRED_UPVOTES st) = (h, w3)"
      by (cases "addUpvotesToDispenser st env w2 (arg_user l) (REQUIRED_UPVOTES st)")
    from addUpvotes_frame(2) [of st env w2 "arg_user l" "REQUIRED_UPVOTES st"] a b2
    have "lastProcessedBlock (report_award st l cfg h w3) = lastProcessedBlock w"
      by (simp add: report_award_fields)
    with track_block_fields(7) [of "report_award st l cfg h w3" l]
      onLog_matched(2) [OF m g False a]
    show ?thesis by simp
  qed
qed

lemma onLogs_processed_subset:
  "set (processedLogIds w) \<subseteq> set (processedLogIds (onLogs st env w ls))"
proof (induction ls arbitrary: w)
  case Nil
  then show ?case by (simp add: onLogs_def)
next
  case (Cons l ls)
  have "set (processedLogIds w) \<subseteq> set (processedLogIds (onLog st env w l))"
    by (rule onLog_processed_subset)
  also have "\<dots> \<subseteq> set (processedLogIds (onLogs st env (onLog st env w l) ls))"
    by (rule Cons.IH)
  finally show ?case by (simp add: onLogs_def)
qed

lemma onLogs_block_mono:
  "lastProcessedBlock w \<le> lastProcessedBlock (onLogs st env w ls)"
proof (induction ls arbitrary: w)
  case Nil
  then show ?case by (simp add: onLogs_def)
next
  case (Cons l ls)
  have "lastProcessedBlock w \<le> lastProcessedBlock (onLog st env w l)"
    by (rule onLog_block_mono)
  also have "\<dots> \<le> lastProcessedBlock (onLogs st env (onLog st env w l) ls)"
    by (rule Cons.IH)
  finally show ?case by (simp add: onLogs_def)
qed

lemma run_callback_mono:
  "set (processedLogIds w) \<subseteq> set (processedLogIds (run_callback st env w c))"
  "lastProcessedBlock w \<le> lastProcessedBlock (run_callback st env w c)"
  by (cases c; simp add: run_callback_def onLogs_processed_subset onLogs_block_mono tick_frame)+

lemma run_processed_subset:
  "set (processedLogIds w) \<subseteq> set (processedLogIds (run st env w cs))"
proof (induction cs arbitrary: w)
  case Nil
  then show ?case by (simp add: run_def)
next
  case (Cons c cs)
  have "set (processedLogIds w) \<subseteq> set (processedLogIds (run_callback st env w c))"
    by (rule run_callback_mono)
  also have "\<dots> \<subseteq> set (processedLogIds (run st env (run_callback st env w c) cs))"
    by (rule Cons.IH)
  finally show ?case by (simp add: run_def)
qed

lemma run_block_mono:
  "lastProcessedBlock w \<le> lastProcessedBlock (run st env w cs)"
proof (induction cs arbitrary: w)
  case Nil
  then show ?case by (simp add: run_def)
next
  case (Cons c cs)
  have "lastProcessedBlock w \<le> lastProcessedBlock (run_callback st env w c)"
    by (rule run_callback_mono)
  also have "\<dots> \<le> lastProcessedBlock (run st env (run_callback st env w c) cs)"
    by (rule Cons.IH)
  finally show ?case by (simp add: run_def)
qed

lemma onLogs_skip:
  "(\<forall>x \<in> set ls. Set_has (processedLogIds w) (log_id x)) \<Longrightarrow> onLogs st env w ls = w"
  by (induction ls) (simp_all add: onLogs_def onLog_def)

text \<open>Once a key is in the set, it stays, and a log with that key is skipped ever after.\<close>

lemma redelivery_skipped:
  assumes "Set_has (processedLogIds w) k" and "log_id l' = k"
  shows "Set_has (processedLogIds (run st env w cs)) k
         \<and> onLog st env (run st env w cs) l' = run st env w cs"
proof -
  from assms(1) run_processed_subset [of w st env cs]
  have "Set_has (processedLogIds (run st env w cs)) k"
    by (auto simp: Set_has_def)
  then show ?thesis using assms(2) by (simp add: onLog_def)
qed

lemma getConfig_after_mark_seen:
  "fst (getConfig st env (mark_seen st w l)) = fst (getConfig st env w)"
  by (simp add: getConfig_def mark_seen_def effect_defs Let_def
        split: option.splits sum.splits prod.splits)

text \<open>With no inventory the handler only reads the config and writes logs.\<close>

lemma depleted_no_dispatch:
  assumes m: "matched st w l"
      and g: "getConfig st env (mark_seen st w l) = (cfg, w2)"
      and z: "queuedNFTCount cfg = 0"
  shows "dispatches (new_effects w (onLog st env w l)) = []"
proof -
  have eq: "onLog st env w l = report_depleted st l w2"
    using onLog_matched(1) [OF m g z] .
  from getConfig_trace [of st env "mark_seen st w l"] g
  obtain es1 where es1: "trace w2 = trace (mark_seen st w l) @ es1" "list_all quiet es1"
    by auto
  from report_depleted_trace [of st l w2]
  obtain es2 where es2: "trace (report_depleted st l w2) = trace w2 @ es2" "list_all quiet es2"
    by auto
  have "dispatches es1 = []" "dispatches es2 = []"
    using quiet_facts [OF es1(2)] quiet_facts [OF es2(2)] by simp_all
  then show ?thesis
    by (simp add: eq es1 es2 mark_seen_fields new_effects_def dispatches_def is_Dispatch_def
          is_dispatch_rpc_def)
qed

text \<open>With inventory the handler calls the dispatcher, once.\<close>

lemma inventory_one_dispatch:
  assumes m: "matched st w l"
      and g: "getConfig st env (mark_seen st w l) = (cfg, w2)"
      and nz: "queuedNFTCount cfg \<noteq> 0"
  shows "filter is_Dispatch (new_effects w (onLog st env w l))
           = [Dispatch (arg_user l) (REQUIRED_UPVOTES st)]"
proof -
  obtain h w3 where a: "addUpvotesToDispenser st env w2 (arg_user l) (REQUIRED_UPVOTES st) = (h, w3)"
    by (cases "addUpvotesToDispenser st env w2 (arg_user l) (REQUIRED_UPVOTES st)")
  have eq: "onLog st env w l = track_block l (report_award st l cfg h w3)"
    using onLog_matched(2) [OF m g nz a] .
  from getConfig_trace [of st env "mark_seen st w l"] g
  obtain es1 where es1: "trace w2 = trace (mark_seen st w l) @ es1" "list_all quiet es1"
    by auto
  from addUpvotes_trace [of st env w2 "arg_user l" "REQUIRED_UPVOTES st"] a
  obtain es2 where es2: "trace w3 = trace w2 @ Dispatch (arg_user l) (REQUIRED_UPVOTES st) # es2"
    "filter is_Dispatch es2 = []"
    by auto
  from report_award_trace [of st l cfg h w3]
  obtain es3 where es3: "trace (report_award st l cfg h w3) = trace w3 @ es3" "list_all quiet es3"
    by auto
  have "filter is_Dispatch es1 = []" "filter is_Dispatch es3 = []"
    using quiet_facts [OF es1(2)] quiet_facts [OF es3(2)] by simp_all
  then show ?thesis
    using es2(2)
    by (simp add: eq track_block_fields es1 es2(1) es3 mark_seen_fields new_effects_def
          is_Dispatch_def)
qed

section \<open>Evaluation on concrete inputs\<close>

lemmas model_defs = onLog_def mark_seen_def getConfig_def cache_hit_def addUpvotesToDispenser_def
  addUpvotes_request_def dispenser_call_failed_def report_award_def report_depleted_def
  track_block_def truthy_def Set_has_def Set_add_def Let_def effect_defs log_token_def
  token_text_def tick_def getCurrentTip_def Array_from_def HEARTBEAT_INTERVAL_def
  CACHE_TTL_MS_def

lemmas example_defs = example_settings_def example_env_def example_log_def fresh_world_def
  load_state_def initial_world_def depleted_env_def offline_env_def revert_env_def
  stale_world_def

lemma toString_9000: "toString 9000 = ''9000''"
  by (simp add: toString_def digits_small digits_large digit_char_def)

lemma toString_0: "toString 0 = ''0''"
  by (simp add: toString_def digits_small digits_large digit_char_def)

lemma foldl_Set_add_fresh:
  "distinct xs \<Longrightarrow> set xs \<inter> set S = {} \<Longrightarrow> foldl Set_add S xs = S @ xs"
proof (induction xs arbitrary: S)
  case Nil
  then show ?case by simp
next
  case (Cons x xs)
  from Cons.prems have "Set_add S x = S @ [x]" by (simp add: Set_add_def)
  moreover from Cons.prems have "distinct xs" "set xs \<inter> set (S @ [x]) = {}" by auto
  ultimately show ?case using Cons.IH [of "S @ [x]"] by simp
qed

text \<open>
  While the dispenser cannot be read and nothing is cached, every log that passes the
  filters is marked and reported as depleted; the other variables stay as they are.
\<close>

lemma onLog_offline:
  assumes c: "configCache w = None"
      and off: "\<forall>n. \<exists>e. readDispenserConfig env n = Inl e"
      and tok: "log_token l = toLowerCase (NORMALIZED_TRACKED_TOKEN_ADDRESS st)"
      and amt: "arg_numUpvotes l = REQUIRED_UPVOTES st"
  shows "processedLogIds (onLog st env w l) = Set_add (processedLogIds w) (log_id l)"
    and "configCache (onLog st env w l) = None"
    and "lastProcessedBlock (onLog st env w l) = lastProcessedBlock w"
    and "stateFile (onLog st env w l) = stateFile w"
    and "heartbeatCount (onLog st env w l) = heartbeatCount w"
proof -
  from off obtain e where e: "readDispenserConfig env (Suc (step w)) = Inl e" by blast
  show "processedLogIds (onLog st env w l) = Set_add (processedLogIds w) (log_id l)"
    and "configCache (onLog st env w l) = None"
    and "lastProcessedBlock (onLog st env w l) = lastProcessedBlock w"
    and "stateFile (onLog st env w l) = stateFile w"
    and "heartbeatCount (onLog st env w l) = heartbeatCount w"
    using c tok amt e
    by (simp_all add: onLog_def mark_seen_def getConfig_def cache_hit_def default_config_def
          report_depleted_def Set_has_def Set_add_def effect_defs Let_def)
qed

lemma onLogs_offline:
  assumes off: "\<forall>n. \<exists>e. readDispenserConfig env n = Inl e"
      and pass: "\<forall>l \<in> set ls. log_token l = toLowerCase (NORMALIZED_TRACKED_TOKEN_ADDRESS st)
                   \<and> arg_numUpvotes l = REQUIRED_UPVOTES st"
  shows "configCache w = None \<Longrightarrow>
         processedLogIds (onLogs st env w ls) = foldl Set_add (processedLogIds w) (map log_id ls)
         \<and> configCache (onLogs st env w ls) = None
         \<and> lastProcessedBlock (onLogs st env w ls) = lastProcessedBlock w
         \<and> stateFile (onLogs st env w ls) = stateFile w
         \<and> heartbeatCount (onLogs st env w ls) = heartbeatCount w"
  using pass
proof (induction ls arbitrary: w)
  case Nil
  then show ?case by (simp add: onLogs_def)
next
  case (Cons l ls)
  from Cons.prems have tok: "log_token l = toLowerCase (NORMALIZED_TRACKED_TOKEN_ADDRESS st)"
    and amt: "arg_numUpvotes l = REQUIRED_UPVOTES st"
    and rest: "\<forall>l \<in> set ls. log_token l = toLowerCase (NORMALIZED_TRACKED_TOKEN_ADDRESS st)
                   \<and> arg_numUpvotes l = REQUIRED_UPVOTES st"
    by simp_all
  note step = onLog_offline [OF Cons.prems(1) off tok amt]
  from Cons.IH [OF step(2) rest] step
  show ?case by (simp add: onLogs_def)
qed

lemma many_keys_eq:
  "many_keys = map (\<lambda>n. log_id (example_log\<lparr>logIndex := n\<rparr>)) [0..<501]"
  by (simp add: many_keys_def many_logs_def comp_def)

lemma length_many_keys: "length many_keys = 501"
  by (simp add: many_keys_eq)

lemma log_id_logIndex_inj:
  "log_id (l\<lparr>logIndex := m\<rparr>) = log_id (l\<lparr>logIndex := n\<rparr>) \<Longrightarrow> m = n"
  by (simp add: log_id_def digits_inj)

lemma distinct_many_keys: "distinct many_keys"
  unfolding many_keys_eq
  by (rule iffD2 [OF distinct_map]) (auto intro: inj_onI dest: log_id_logIndex_inj)

lemma recent_many_keys:
  "set (drop 1 many_keys) = (\<lambda>n. log_id (example_log\<lparr>logIndex := n\<rparr>)) ` {1..<501}"
  by (simp add: many_keys_eq drop_map)

text \<open>The crowded world: 501 keys, and nothing else has changed since the start.\<close>

lemma crowded_fields:
  "processedLogIds crowded_world = many_keys"
  "lastProcessedBlock crowded_world = 0"
  "stateFile crowded_world = None"
proof -
  have off: "\<forall>n. \<exists>e. readDispenserConfig offline_env n = Inl e"
    by (simp add: offline_env_def)
  have pass: "\<forall>l \<in> set many_logs.
      log_token l = toLowerCase (NORMALIZED_TRACKED_TOKEN_ADDRESS example_settings)
      \<and> arg_numUpvotes l = REQUIRED_UPVOTES example_settings"
    by (auto simp: many_logs_def log_token_def token_text_def example_log_def
          example_settings_def)
  have fresh: "configCache fresh_world = None" "processedLogIds fresh_world = []"
    "lastProcessedBlock fresh_world = 0" "stateFile fresh_world = None"
    by (simp_all add: fresh_world_def load_state_def initial_world_def effect_defs)
  from onLogs_offline [OF off pass fresh(1)] fresh
  have "processedLogIds crowded_world = foldl Set_add [] many_keys"
    and b: "lastProcessedBlock crowded_world = 0"
    and f: "stateFile crowded_world = None"
    by (simp_all add: crowded_world_def many_keys_def)
  moreover have "foldl Set_add [] many_keys = [] @ many_keys"
    by (rule foldl_Set_add_fresh) (simp_all add: distinct_many_keys)
  ultimately show "processedLogIds crowded_world = many_keys"
    "lastProcessedBlock crowded_world = 0"
    "stateFile crowded_world = None"
    by simp_all
qed

lemma crowded_tick_writes:
  "WriteState crowded_file
     \<in> set (new_effects crowded_world (tick example_settings example_env crowded_world))"
proof -
  obtain cfg w1 where g: "getConfig example_settings example_env crowded_world = (cfg, w1)"
    by (cases "getConfig example_settings example_env crowded_world")
  obtain tip w2 where t: "getCurrentTip example_settings example_env w1 = (tip, w2)"
    by (cases "getCurrentTip example_settings example_env w1")
  from getConfig_trace [of example_settings example_env crowded_world] g
  obtain es1 where es1: "trace w1 = trace crowded_world @ es1" by auto
  from getCurrentTip_trace [of example_settings example_env w1] t
  obtain es2 where es2: "trace w2 = trace w1 @ es2" by auto
  have f: "processedLogIds w2 = many_keys" "lastProcessedBlock w2 = 0"
    using getConfig_frame [of example_settings example_env crowded_world]
      getCurrentTip_frame [of example_settings example_env w1] g t
    by (simp_all add: crowded_fields)
  have tip: "tip = 9000"
    using t by (simp add: getCurrentTip_def example_env_def effect_defs Let_def)
  have ok: "writeFileSync example_env (step w2) = None"
    by (simp add: example_env_def)
  have trim: "trim_processed many_keys = drop 1 many_keys"
    by (simp add: trim_processed_drop length_many_keys)
  from tick_after_reads(4) [OF g t ok]
  obtain es where "trace (tick example_settings example_env crowded_world)
      = trace w2 @ WriteState crowded_file # es"
    by (auto simp: f tip trim crowded_file_def toString_9000 toString_0)
  then have "new_effects crowded_world (tick example_settings example_env crowded_world)
      = es1 @ es2 @ WriteState crowded_file # es"
    using es1 es2 by (simp add: new_effects_def)
  then show ?thesis by simp
qed

section \<open>The event watcher\<close>

text \<open>
  C1. For a delivered log that passes both filters, the key is added to
  \<open>processedLogIds\<close> before the dispatch: in what the handler does, every call of
  \<open>addUpvotesToDispenser\<close> and every request it makes comes after the update of the set,
  which is the handler's first effect. There is at most one dispatch, and exactly one
  when the key is new and inventory is found. In each world the
  handler passes through once the key is marked (before the config is read, when the
  dispatcher is called, when it has returned) the set holds the key, and a batch of logs
  with that key delivered there is skipped as a whole. The key then stays in the set
  through whatever deliveries and ticks follow, so a later delivery of the same key is
  skipped without any effect, and a batch that repeats the key dispatches at most once.
\<close>

theorem processed_marked_before_dispatch:
  assumes tok: "case_insensitive_eq (token_text l) (NORMALIZED_TRACKED_TOKEN_ADDRESS st)"
      and amt: "arg_numUpvotes l = REQUIRED_UPVOTES st"
  shows "(\<forall>pre e post.
            new_effects w (onLog st env w l) = pre @ e # post
            \<and> (is_Dispatch e \<or> is_dispatch_rpc e)
            \<longrightarrow> ProcessedAdd (log_id l) \<in> set pre)
         \<and> length (filter is_Dispatch (new_effects w (onLog st env w l))) \<le> 1
         \<and> (\<not> Set_has (processedLogIds w) (log_id l)
              \<and> queuedNFTCount (fst (getConfig st env (mark_seen st w l))) \<noteq> 0 \<longrightarrow>
               filter is_Dispatch (new_effects w (onLog st env w l))
                 = [Dispatch (arg_user l) (REQUIRED_UPVOTES st)])
         \<and> Set_has (processedLogIds (onLog st env w l)) (log_id l)
         \<and> (\<not> Set_has (processedLogIds w) (log_id l) \<longrightarrow>
               (\<exists>rest. new_effects w (onLog st env w l) = ProcessedAdd (log_id l) # rest)
               \<and> (\<forall>w'. w' = mark_seen st w l
                        \<or> w' = snd (getConfig st env (mark_seen st w l))
                        \<or> w' = snd (addUpvotesToDispenser st env
                                      (snd (getConfig st env (mark_seen st w l)))
                                      (arg_user l) (REQUIRED_UPVOTES st))
                     \<longrightarrow> Set_has (processedLogIds w') (log_id l)
                         \<and> (\<forall>env' ls. (\<forall>x \<in> set ls. log_id x = log_id l)
                               \<longrightarrow> onLogs st env' w' ls = w')))
         \<and> (\<forall>env' cs l'. log_id l' = log_id l \<longrightarrow>
               Set_has (processedLogIds (run st env' (onLog st env w l) cs)) (log_id l)
               \<and> onLog st env' (run st env' (onLog st env w l) cs) l'
                   = run st env' (onLog st env w l) cs)
         \<and> (\<forall>ls. (\<forall>x \<in> set ls. log_id x = log_id l) \<longrightarrow>
               length (filter is_Dispatch (new_effects w (onLogs st env w (l # ls)))) \<le> 1)"
proof -
  have marked: "Set_has (processedLogIds (onLog st env w l)) (log_id l)"
  proof (cases "Set_has (processedLogIds w) (log_id l)")
    case True
    then show ?thesis by (simp add: onLog_def)
  next
    case False
    with tok amt have "matched st w l" by (simp add: matched_iff)
    then show ?thesis by (rule onLog_marks)
  qed
  have order: "\<forall>pre e post.
            new_effects w (onLog st env w l) = pre @ e # post
            \<and> (is_Dispatch e \<or> is_dispatch_rpc e)
            \<longrightarrow> ProcessedAdd (log_id l) \<in> set pre"
  proof (intro allI impI)
    fix pre e post
    assume a: "new_effects w (onLog st env w l) = pre @ e # post
               \<and> (is_Dispatch e \<or> is_dispatch_rpc e)"
    with onLog_new_effects [of w st env l]
    obtain es where es: "pre @ e # post = ProcessedAdd (log_id l) # es" by auto
    show "ProcessedAdd (log_id l) \<in> set pre"
    proof (cases pre)
      case Nil
      with es have "e = ProcessedAdd (log_id l)" by simp
      with a show ?thesis by (simp add: is_Dispatch_def is_dispatch_rpc_def)
    next
      case (Cons x xs)
      with es show ?thesis by simp
    qed
  qed
  have once: "length (filter is_Dispatch (new_effects w (onLog st env w l))) \<le> 1"
    using onLog_new_effects [of w st env l] by (auto simp: is_Dispatch_def)
  have exactly: "\<not> Set_has (processedLogIds w) (log_id l)
              \<and> queuedNFTCount (fst (getConfig st env (mark_seen st w l))) \<noteq> 0 \<longrightarrow>
               filter is_Dispatch (new_effects w (onLog st env w l))
                 = [Dispatch (arg_user l) (REQUIRED_UPVOTES st)]"
  proof
    assume a: "\<not> Set_has (processedLogIds w) (log_id l)
              \<and> queuedNFTCount (fst (getConfig st env (mark_seen st w l))) \<noteq> 0"
    with tok amt have m: "matched st w l" by (simp add: matched_iff)
    obtain cfg w2 where g: "getConfig st env (mark_seen st w l) = (cfg, w2)"
      by (cases "getConfig st env (mark_seen st w l)")
    with a have nz: "queuedNFTCount cfg \<noteq> 0" by simp
    from m g nz show "filter is_Dispatch (new_effects w (onLog st env w l))
                 = [Dispatch (arg_user l) (REQUIRED_UPVOTES st)]"
      by (rule inventory_one_dispatch)
  qed
  have held: "\<forall>w'. w' = mark_seen st w l
                        \<or> w' = snd (getConfig st env (mark_seen st w l))
                        \<or> w' = snd (addUpvotesToDispenser st env
                                      (snd (getConfig st env (mark_seen st w l)))
                                      (arg_user l) (REQUIRED_UPVOTES st))
                     \<longrightarrow> Set_has (processedLogIds w') (log_id l)
                         \<and> (\<forall>env' ls. (\<forall>x \<in> set ls. log_id x = log_id l)
                               \<longrightarrow> onLogs st env' w' ls = w')"
  proof (intro allI impI)
    fix w'
    assume "w' = mark_seen st w l
              \<or> w' = snd (getConfig st env (mark_seen st w l))
              \<or> w' = snd (addUpvotesToDispenser st env
                            (snd (getConfig st env (mark_seen st w l)))
                            (arg_user l) (REQUIRED_UPVOTES st))"
    then have "processedLogIds w' = Set_add (processedLogIds w) (log_id l)"
      by (auto simp: mark_seen_fields getConfig_frame addUpvotes_frame)
    then have h: "Set_has (processedLogIds w') (log_id l)"
      by (simp add: Set_has_def set_Set_add)
    have "\<forall>env' ls. (\<forall>x \<in> set ls. log_id x = log_id l) \<longrightarrow> onLogs st env' w' ls = w'"
    proof (intro allI impI)
      fix env' ls
      assume "\<forall>x \<in> set ls. log_id x = log_id l"
      with h have "\<forall>x \<in> set ls. Set_has (processedLogIds w') (log_id x)" by simp
      then show "onLogs st env' w' ls = w'" by (rule onLogs_skip)
    qed
    with h show "Set_has (processedLogIds w') (log_id l)
                 \<and> (\<forall>env' ls. (\<forall>x \<in> set ls. log_id x = log_id l)
                       \<longrightarrow> onLogs st env' w' ls = w')" ..
  qed
  have first: "\<not> Set_has (processedLogIds w) (log_id l) \<longrightarrow>
               (\<exists>rest. new_effects w (onLog st env w l) = ProcessedAdd (log_id l) # rest)"
  proof
    assume nh: "\<not> Set_has (processedLogIds w) (log_id l)"
    from onLog_cases [of st env w l] marked nh
    show "\<exists>rest. new_effects w (onLog st env w l) = ProcessedAdd (log_id l) # rest"
      by (auto simp: new_effects_def)
  qed
  have later: "\<forall>env' cs l'. log_id l' = log_id l \<longrightarrow>
               Set_has (processedLogIds (run st env' (onLog st env w l) cs)) (log_id l)
               \<and> onLog st env' (run st env' (onLog st env w l) cs) l'
                   = run st env' (onLog st env w l) cs"
    using redelivery_skipped [OF marked] by blast
  have batch: "\<forall>ls. (\<forall>x \<in> set ls. log_id x = log_id l) \<longrightarrow>
               length (filter is_Dispatch (new_effects w (onLogs st env w (l # ls)))) \<le> 1"
  proof (intro allI impI)
    fix ls
    assume same: "\<forall>x \<in> set ls. log_id x = log_id l"
    with marked have "\<forall>x \<in> set ls. Set_has (processedLogIds (onLog st env w l)) (log_id x)"
      by simp
    then have "onLogs st env (onLog st env w l) ls = onLog st env w l"
      by (rule onLogs_skip)
    then have "onLogs st env w (l # ls) = onLog st env w l"
      by (simp add: onLogs_def)
    with once show "length (filter is_Dispatch (new_effects w (onLogs st env w (l # ls)))) \<le> 1"
      by simp
  qed
  from order once exactly marked first held later batch show ?thesis by blast
qed

text \<open>
  The example log delivered twice in one batch on a first start: one dispatch, made after
  the key was added.
\<close>

theorem processed_marked_before_dispatch_witness:
  "case_insensitive_eq (token_text example_log) (NORMALIZED_TRACKED_TOKEN_ADDRESS example_settings)
   \<and> arg_numUpvotes example_log = REQUIRED_UPVOTES example_settings
   \<and> Set_has (processedLogIds (onLog example_settings example_env fresh_world example_log))
       (log_id example_log)
   \<and> filter (\<lambda>e. is_Dispatch e \<or> e = ProcessedAdd (log_id example_log))
       (new_effects fresh_world
         (onLogs example_settings example_env fresh_world [example_log, example_log]))
     = [ProcessedAdd (log_id example_log),
        Dispatch ''0xd8dA6BF26964aF9D7eEd9e03E53415D37aA96045'' 420]
   \<and> length (filter is_Dispatch (new_effects fresh_world
         (onLogs example_settings example_env fresh_world [example_log, example_log]))) \<le> 1"
proof -
  have h1: "case_insensitive_eq (token_text example_log)
              (NORMALIZED_TRACKED_TOKEN_ADDRESS example_settings)"
    by (simp add: case_insensitive_eq_toLowerCase token_text_def example_defs)
  have h2: "arg_numUpvotes example_log = REQUIRED_UPVOTES example_settings"
    by (simp add: example_defs)
  have ev: "filter (\<lambda>e. is_Dispatch e \<or> e = ProcessedAdd (log_id example_log))
       (new_effects fresh_world
         (onLogs example_settings example_env fresh_world [example_log, example_log]))
     = [ProcessedAdd (log_id example_log),
        Dispatch ''0xd8dA6BF26964aF9D7eEd9e03E53415D37aA96045'' 420]"
    by (simp add: onLogs_def model_defs example_defs new_effects_def is_Dispatch_def)
  from processed_marked_before_dispatch [OF h1 h2, of fresh_world example_env] h1 h2 ev
  show ?thesis by force
qed

text \<open>
  C2. A delivered log whose idempotency key (transaction hash and log index) is already
  in \<open>processedLogIds\<close> is skipped: the handler returns the world it was given, so there
  is no dispatch, no change of any variable or of the state file, and no record or console
  line is written for it.
\<close>

theorem already_processed_skipped:
  assumes "Set_has (processedLogIds w) (log_id l)"
  shows "onLog st env w l = w \<and> new_effects w (onLog st env w l) = []"
  using assms by (simp add: onLog_def new_effects_def)

text \<open>The example log delivered a second time, after it was handled once.\<close>

theorem already_processed_skipped_witness:
  "Set_has (processedLogIds (onLog example_settings example_env fresh_world example_log))
     (log_id example_log)
   \<and> onLog example_settings example_env
        (onLog example_settings example_env fresh_world example_log) example_log
      = onLog example_settings example_env fresh_world example_log
   \<and> new_effects (onLog example_settings example_env fresh_world example_log)
        (onLog example_settings example_env
          (onLog example_settings example_env fresh_world example_log) example_log) = []"
proof -
  have h: "Set_has (processedLogIds (onLog example_settings example_env fresh_world example_log))
             (log_id example_log)"
    by (simp add: model_defs example_defs)
  from already_processed_skipped [OF h, of example_settings example_env] h
  show ?thesis by blast
qed

text \<open>
  C3. A delivered log whose token is not the tracked token up to the case of its
  letters, or whose number of upvotes is not exactly \<open>REQUIRED_UPVOTES\<close>, is dropped:
  the handler returns the world it was given, so there is no dispatch, the key is not
  added to \<open>processedLogIds\<close>, and nothing is logged.
\<close>

theorem mismatch_dropped:
  assumes "\<not> case_insensitive_eq (token_text l) (NORMALIZED_TRACKED_TOKEN_ADDRESS st)
           \<or> arg_numUpvotes l \<noteq> REQUIRED_UPVOTES st"
  shows "onLog st env w l = w
         \<and> new_effects w (onLog st env w l) = []
         \<and> processedLogIds (onLog st env w l) = processedLogIds w"
  using assms
  by (auto simp add: onLog_def new_effects_def log_token_def case_insensitive_eq_toLowerCase)

text \<open>The example log with 419 upvotes, and with another token.\<close>

theorem mismatch_dropped_witness:
  "arg_numUpvotes (example_log\<lparr>arg_numUpvotes := 419\<rparr>) \<noteq> REQUIRED_UPVOTES example_settings
   \<and> onLog example_settings example_env fresh_world (example_log\<lparr>arg_numUpvotes := 419\<rparr>)
      = fresh_world
   \<and> \<not> case_insensitive_eq
        (token_text (example_log\<lparr>arg_token := Some ''0x4200000000000000000000000000000000000006''\<rparr>))
        (NORMALIZED_TRACKED_TOKEN_ADDRESS example_settings)
   \<and> onLog example_settings example_env fresh_world
        (example_log\<lparr>arg_token := Some ''0x4200000000000000000000000000000000000006''\<rparr>)
      = fresh_world"
proof -
  have h1: "arg_numUpvotes (example_log\<lparr>arg_numUpvotes := 419\<rparr>)
              \<noteq> REQUIRED_UPVOTES example_settings"
    by (simp add: example_defs)
  have h2: "\<not> case_insensitive_eq
        (token_text (example_log\<lparr>arg_token := Some ''0x4200000000000000000000000000000000000006''\<rparr>))
        (NORMALIZED_TRACKED_TOKEN_ADDRESS example_settings)"
    by code_simp
  from mismatch_dropped [of "example_log\<lparr>arg_numUpvotes := 419\<rparr>" example_settings
         example_env fresh_world] h1
       mismatch_dropped [of "example_log\<lparr>arg_token := Some ''0x4200000000000000000000000000000000000006''\<rparr>"
         example_settings example_env fresh_world] h2
  show ?thesis by blast
qed

text \<open>
  C4, as stated, fails: on a first start the matched example event finds an empty queue,
  and the handler leaves a snapshot in \<open>configCache\<close>, which was empty before.
\<close>

theorem depleted_event_refreshes_cache:
  "matched example_settings fresh_world example_log
   \<and> queuedNFTCount
       (fst (getConfig example_settings depleted_env
              (mark_seen example_settings fresh_world example_log))) = 0
   \<and> configCache fresh_world = None
   \<and> configCache (onLog example_settings depleted_env fresh_world example_log)
       = Some \<lparr>timestamp = 1700000000000,
               data = \<lparr>upvotesRequired = toString 420, queuedNFTCount = 0, queuedNFTs = [],
                       lastUpdated = 1700000000000\<rparr>\<rparr>
   \<and> configCache (onLog example_settings depleted_env fresh_world example_log)
       \<noteq> configCache fresh_world"
  by (simp add: matched_def model_defs example_defs)

text \<open>
  C4, amended. For a matched event whose inventory count, as \<open>getConfig\<close> returns it, is
  zero: the \<open>dispenser_depleted\<close> warning and the \<open>inventory_depleted\<close> dispenser-log
  record are written with the user and the source transaction, after everything else; no
  dispatch call or request is made; the set has gained the key and nothing else;
  \<open>lastProcessedBlock\<close>, the heartbeat count and the state file are as before. The
  config cache is as \<open>getConfig\<close> left it: unchanged, or holding the snapshot just read.
\<close>

theorem depleted_logged_no_dispatch:
  assumes m: "matched st w l"
      and g: "getConfig st env (mark_seen st w l) = (cfg, w2)"
      and z: "queuedNFTCount cfg = 0"
  shows "trace (onLog st env w l) = trace w2 @
           [Console (''[DISPENSER] Out of NFTs! User '' @ arg_user l @ '' upvoted ''
                 @ toString (REQUIRED_UPVOTES st) @ '' times but no inventory available.''),
            LogFile (Entry ''dispenser_depleted'' ''warn''
              [(''user'', JStr (arg_user l)),
               (''txHash'', JStr (transactionHash l)),
               (''blockNumber'', blockNumber_field l)]),
            DispenserLog (Action ''inventory_depleted''
              [(''user'', JStr (arg_user l)),
               (''sourceTx'', JStr (transactionHash l)),
               (''sourceBasescan'', JStr (basescan (transactionHash l))),
               (''note'', JStr (''User upvoted '' @ toString (REQUIRED_UPVOTES st)
                  @ '' times but no NFTs available''))])]
         \<and> dispatches (new_effects w (onLog st env w l)) = []
         \<and> processedLogIds (onLog st env w l) = processedLogIds w @ [log_id l]
         \<and> lastProcessedBlock (onLog st env w l) = lastProcessedBlock w
         \<and> heartbeatCount (onLog st env w l) = heartbeatCount w
         \<and> stateFile (onLog st env w l) = stateFile w
         \<and> configCache (onLog st env w l) = configCache w2
         \<and> (configCache w2 = configCache w
             \<or> configCache w2 = Some \<lparr>timestamp = Date_now env (step w), data = cfg\<rparr>)"
proof -
  have eq: "onLog st env w l = report_depleted st l w2"
    using onLog_matched(1) [OF m g z] .
  have tr: "trace (onLog st env w l) = trace w2 @
           [Console (''[DISPENSER] Out of NFTs! User '' @ arg_user l @ '' upvoted ''
                 @ toString (REQUIRED_UPVOTES st) @ '' times but no inventory available.''),
            LogFile (Entry ''dispenser_depleted'' ''warn''
              [(''user'', JStr (arg_user l)),
               (''txHash'', JStr (transactionHash l)),
               (''blockNumber'', blockNumber_field l)]),
            DispenserLog (Action ''inventory_depleted''
              [(''user'', JStr (arg_user l)),
               (''sourceTx'', JStr (transactionHash l)),
               (''sourceBasescan'', JStr (basescan (transactionHash l))),
               (''note'', JStr (''User upvoted '' @ toString (REQUIRED_UPVOTES st)
                  @ '' times but no NFTs available''))])]"
    by (simp add: eq report_depleted_def effect_defs Let_def)
  have nd: "dispatches (new_effects w (onLog st env w l)) = []"
    using m g z by (rule depleted_no_dispatch)
  have nh: "log_id l \<notin> set (processedLogIds w)"
    using m by (simp add: matched_def Set_has_def)
  have fr: "processedLogIds w2 = processedLogIds w @ [log_id l]"
    "lastProcessedBlock w2 = lastProcessedBlock w"
    "heartbeatCount w2 = heartbeatCount w"
    "stateFile w2 = stateFile w"
    using getConfig_frame [of st env "mark_seen st w l"] g nh
    by (simp_all add: mark_seen_fields Set_add_def)
  have cc: "configCache w2 = configCache w
             \<or> configCache w2 = Some \<lparr>timestamp = Date_now env (step w), data = cfg\<rparr>"
    using g
    by (auto simp add: getConfig_def mark_seen_def effect_defs Let_def
          split: option.splits sum.splits)
  from tr nd fr cc show ?thesis
    by (simp add: eq report_depleted_fields)
qed

text \<open>The example event on a first start, with an empty queue at the dispenser.\<close>

theorem depleted_logged_no_dispatch_witness:
  "matched example_settings fresh_world example_log
   \<and> queuedNFTCount
       (fst (getConfig example_settings depleted_env
              (mark_seen example_settings fresh_world example_log))) = 0
   \<and> dispatches (new_effects fresh_world
                    (onLog example_settings depleted_env fresh_world example_log)) = []
   \<and> processedLogIds (onLog example_settings depleted_env fresh_world example_log)
       = processedLogIds fresh_world @ [log_id example_log]
   \<and> lastProcessedBlock (onLog example_settings depleted_env fresh_world example_log)
       = lastProcessedBlock fresh_world"
proof -
  have m: "matched example_settings fresh_world example_log"
    by (simp add: matched_def model_defs example_defs)
  obtain cfg w2 where
    g: "getConfig example_settings depleted_env
          (mark_seen example_settings fresh_world example_log) = (cfg, w2)"
    by (cases "getConfig example_settings depleted_env
                 (mark_seen example_settings fresh_world example_log)")
  have "queuedNFTCount
       (fst (getConfig example_settings depleted_env
              (mark_seen example_settings fresh_world example_log))) = 0"
    by (simp add: model_defs example_defs)
  with g have z: "queuedNFTCount cfg = 0" by simp
  from depleted_logged_no_dispatch [OF m g z] m g z
  show ?thesis by simp
qed

text \<open>
  C5. For a matched event with inventory whose dispatch returns no transaction
  identifier: the \<open>award_failed\<close> warning and dispenser-log record are written with the
  user, the amount and the source transaction; the key is in the set and stays there; the
  handler called the dispatcher exactly once; and whatever deliveries and ticks follow,
  the event delivered again is skipped, so the dispatch is never tried again.
\<close>

theorem award_failed_not_retried:
  assumes m: "matched st w l"
      and g: "getConfig st env (mark_seen st w l) = (cfg, w2)"
      and nz: "queuedNFTCount cfg \<noteq> 0"
      and a: "addUpvotesToDispenser st env w2 (arg_user l) (REQUIRED_UPVOTES st) = (h, w3)"
      and f: "truthy h = None"
  shows "trace (onLog st env w l) = trace w3 @
           [Console (''[DISPENSER] Failed to award NFT to '' @ arg_user l
                       @ ''. Check logs for details.''),
            LogFile (Entry ''award_failed'' ''warn''
              [(''user'', JStr (arg_user l)),
               (''amount'', JStr (toString (REQUIRED_UPVOTES st))),
               (''sourceTx'', JStr (transactionHash l))]),
            DispenserLog (Action ''award_failed''
              [(''user'', JStr (arg_user l)),
               (''amount'', JStr (toString (REQUIRED_UPVOTES st))),
               (''sourceTx'', JStr (transactionHash l)),
               (''sourceBasescan'', JStr (basescan (transactionHash l))),
               (''error'', JStr ''Transaction failed'')])]
         \<and> Set_has (processedLogIds (onLog st env w l)) (log_id l)
         \<and> filter is_Dispatch (new_effects w (onLog st env w l))
             = [Dispatch (arg_user l) (REQUIRED_UPVOTES st)]
         \<and> (\<forall>env' cs.
               Set_has (processedLogIds (run st env' (onLog st env w l) cs)) (log_id l)
               \<and> onLog st env' (run st env' (onLog st env w l) cs) l
                   = run st env' (onLog st env w l) cs)"
proof -
  have eq: "onLog st env w l = track_block l (report_award st l cfg h w3)"
    using onLog_matched(2) [OF m g nz a] .
  have tr: "trace (onLog st env w l) = trace w3 @
           [Console (''[DISPENSER] Failed to award NFT to '' @ arg_user l
                       @ ''. Check logs for details.''),
            LogFile (Entry ''award_failed'' ''warn''
              [(''user'', JStr (arg_user l)),
               (''amount'', JStr (toString (REQUIRED_UPVOTES st))),
               (''sourceTx'', JStr (transactionHash l))]),
            DispenserLog (Action ''award_failed''
              [(''user'', JStr (arg_user l)),
               (''amount'', JStr (toString (REQUIRED_UPVOTES st))),
               (''sourceTx'', JStr (transactionHash l)),
               (''sourceBasescan'', JStr (basescan (transactionHash l))),
               (''error'', JStr ''Transaction failed'')])]"
    by (simp add: eq track_block_fields report_award_def f effect_defs Let_def)
  have marked: "Set_has (processedLogIds (onLog st env w l)) (log_id l)"
    using m by (rule onLog_marks)
  have one: "filter is_Dispatch (new_effects w (onLog st env w l))
             = [Dispatch (arg_user l) (REQUIRED_UPVOTES st)]"
    using m g nz by (rule inventory_one_dispatch)
  have later: "\<forall>env' cs.
               Set_has (processedLogIds (run st env' (onLog st env w l) cs)) (log_id l)
               \<and> onLog st env' (run st env' (onLog st env w l) cs) l
                   = run st env' (onLog st env w l) cs"
    using redelivery_skipped [OF marked] by blast
  from tr marked one later show ?thesis by blast
qed

text \<open>Scenario F: the example event with inventory, and a simulation that reverts.\<close>

theorem award_failed_not_retried_witness:
  "matched example_settings fresh_world example_log
   \<and> queuedNFTCount
       (fst (getConfig example_settings revert_env
              (mark_seen example_settings fresh_world example_log))) \<noteq> 0
   \<and> truthy (fst (addUpvotesToDispenser example_settings revert_env
        (snd (getConfig example_settings revert_env
               (mark_seen example_settings fresh_world example_log)))
        (arg_user example_log) (REQUIRED_UPVOTES example_settings))) = None
   \<and> Set_has (processedLogIds (onLog example_settings revert_env fresh_world example_log))
       (log_id example_log)
   \<and> filter is_Dispatch (new_effects fresh_world
        (onLog example_settings revert_env fresh_world example_log))
       = [Dispatch (arg_user example_log) (REQUIRED_UPVOTES example_settings)]
   \<and> onLog example_settings revert_env
        (run example_settings revert_env
          (onLog example_settings revert_env fresh_world example_log) [Tick])
        example_log
      = run example_settings revert_env
          (onLog example_settings revert_env fresh_world example_log) [Tick]"
proof -
  have m: "matched example_settings fresh_world example_log"
    by (simp add: matched_def model_defs example_defs)
  obtain cfg w2 where
    g: "getConfig example_settings revert_env
          (mark_seen example_settings fresh_world example_log) = (cfg, w2)"
    by (cases "getConfig example_settings revert_env
                 (mark_seen example_settings fresh_world example_log)")
  obtain h w3 where
    a: "addUpvotesToDispenser example_settings revert_env w2
          (arg_user example_log) (REQUIRED_UPVOTES example_settings) = (h, w3)"
    by (cases "addUpvotesToDispenser example_settings revert_env w2
          (arg_user example_log) (REQUIRED_UPVOTES example_settings)")
  have c: "queuedNFTCount
       (fst (getConfig example_settings revert_env
              (mark_seen example_settings fresh_world example_log))) \<noteq> 0"
    by (simp add: model_defs example_defs)
  with g have nz: "queuedNFTCount cfg \<noteq> 0" by simp
  have t: "truthy (fst (addUpvotesToDispenser example_settings revert_env
        (snd (getConfig example_settings revert_env
               (mark_seen example_settings fresh_world example_log)))
        (arg_user example_log) (REQUIRED_UPVOTES example_settings))) = None"
    by (simp add: model_defs example_defs)
  with g a have f: "truthy h = None" by simp
  from award_failed_not_retried [OF m g nz a f] m c t
  show ?thesis by blast
qed

section \<open>The heartbeat: what is persisted and what a restart reads back\<close>

text \<open>
  C6, as stated, fails: with 501 keys in memory, the oldest key is in the set when the
  tick persists it and is not in the set a restart loads.
\<close>

theorem reload_forgets_oldest_key:
  "Set_has (processedLogIds crowded_world) (log_id (example_log\<lparr>logIndex := 0\<rparr>))
   \<and> \<not> Set_has
         (processedLogIds
           (load_state (stateFile (tick example_settings example_env crowded_world))))
         (log_id (example_log\<lparr>logIndex := 0\<rparr>))"
proof -
  have "log_id (example_log\<lparr>logIndex := 0\<rparr>) \<in> set many_keys"
    by (simp add: many_keys_eq)
  then have a: "Set_has (processedLogIds crowded_world) (log_id (example_log\<lparr>logIndex := 0\<rparr>))"
    by (simp add: Set_has_def crowded_fields(1))
  from tick_written [OF crowded_tick_writes]
  have sf: "stateFile (tick example_settings example_env crowded_world) = Some crowded_file"
    by simp
  have "log_id (example_log\<lparr>logIndex := 0\<rparr>) \<notin> set (drop 1 many_keys)"
  proof
    assume "log_id (example_log\<lparr>logIndex := 0\<rparr>) \<in> set (drop 1 many_keys)"
    then obtain n where n: "n \<in> {1..<501}"
      and e: "log_id (example_log\<lparr>logIndex := 0\<rparr>) = log_id (example_log\<lparr>logIndex := n\<rparr>)"
      unfolding recent_many_keys by blast
    from e have "0 = n" by (rule log_id_logIndex_inj)
    with n show False by simp
  qed
  then have "\<not> Set_has (processedLogIds (load_state (Some crowded_file)))
                (log_id (example_log\<lparr>logIndex := 0\<rparr>))"
    by (simp add: Set_has_def load_state_processed set_Set_new crowded_file_def)
  with a sf show ?thesis by simp
qed

text \<open>
  C6, amended. The set a restart loads from the file a tick wrote holds exactly the last
  500 keys of the in-memory set (all of them when there are at most 500): for those keys
  the membership test agrees with the one in memory, and older keys are forgotten.
\<close>

theorem reload_keeps_recent_keys:
  assumes "WriteState p \<in> set (new_effects w (tick st env w))"
  shows "(\<forall>k. Set_has (processedLogIds (load_state (stateFile (tick st env w)))) k
               = (k \<in> set (drop (length (processedLogIds w) - 500) (processedLogIds w))))
         \<and> (\<forall>k. Set_has (processedLogIds (load_state (stateFile (tick st env w)))) k
                \<longrightarrow> Set_has (processedLogIds w) k)
         \<and> (length (processedLogIds w) \<le> 500 \<longrightarrow>
              (\<forall>k. Set_has (processedLogIds (load_state (stateFile (tick st env w)))) k
                    = Set_has (processedLogIds w) k))"
proof -
  from tick_written [OF assms]
  have a: "p_processed p = drop (length (processedLogIds w) - 500) (processedLogIds w)"
    and b: "stateFile (tick st env w) = Some p"
    by (simp_all add: trim_processed_drop)
  have c: "set (processedLogIds (load_state (stateFile (tick st env w))))
             = set (drop (length (processedLogIds w) - 500) (processedLogIds w))"
    by (simp add: b load_state_processed set_Set_new a)
  show ?thesis
    using c set_drop_subset [of "length (processedLogIds w) - 500" "processedLogIds w"]
    by (auto simp: Set_has_def)
qed

text \<open>The newest of 501 keys is still known after a restart.\<close>

theorem reload_keeps_recent_keys_witness:
  "WriteState crowded_file
     \<in> set (new_effects crowded_world (tick example_settings example_env crowded_world))
   \<and> Set_has (processedLogIds crowded_world) (log_id (example_log\<lparr>logIndex := 500\<rparr>))
   \<and> Set_has
       (processedLogIds
         (load_state (stateFile (tick example_settings example_env crowded_world))))
       (log_id (example_log\<lparr>logIndex := 500\<rparr>))"
proof -
  have "log_id (example_log\<lparr>logIndex := 500\<rparr>) \<in> set (drop 1 many_keys)"
    unfolding recent_many_keys by simp
  then have "log_id (example_log\<lparr>logIndex := 500\<rparr>)
      \<in> set (drop (length (processedLogIds crowded_world) - 500) (processedLogIds crowded_world))"
    by (simp add: crowded_fields(1) length_many_keys)
  with reload_keeps_recent_keys [OF crowded_tick_writes] crowded_tick_writes
  show ?thesis by blast
qed

text \<open>
  C7. The \<open>processed\<close> array of the state file a tick writes is the in-memory set
  without all but its last 500 keys, in insertion order: it is never longer than 500, and
  what is left out is the oldest part. A tick does write the file whenever the file
  system accepts the write.
\<close>

theorem tick_persists_last_500:
  "(\<forall>p. WriteState p \<in> set (new_effects w (tick st env w)) \<longrightarrow>
        p_processed p = drop (length (processedLogIds w) - 500) (processedLogIds w)
        \<and> length (p_processed p) \<le> 500
        \<and> length (p_processed p) = min 500 (length (processedLogIds w))
        \<and> (\<exists>older. processedLogIds w = older @ p_processed p)
        \<and> stateFile (tick st env w) = Some p)
   \<and> ((\<forall>n. writeFileSync env n = None) \<longrightarrow>
        (\<exists>p. WriteState p \<in> set (new_effects w (tick st env w))))"
proof -
  have written: "\<forall>p. WriteState p \<in> set (new_effects w (tick st env w)) \<longrightarrow>
        p_processed p = drop (length (processedLogIds w) - 500) (processedLogIds w)
        \<and> length (p_processed p) \<le> 500
        \<and> length (p_processed p) = min 500 (length (processedLogIds w))
        \<and> (\<exists>older. processedLogIds w = older @ p_processed p)
        \<and> stateFile (tick st env w) = Some p"
  proof (intro allI impI)
    fix p
    assume "WriteState p \<in> set (new_effects w (tick st env w))"
    from tick_written [OF this]
    have a: "p_processed p = drop (length (processedLogIds w) - 500) (processedLogIds w)"
      and b: "stateFile (tick st env w) = Some p"
      by (simp_all add: trim_processed_drop)
    have "processedLogIds w =
            take (length (processedLogIds w) - 500) (processedLogIds w) @ p_processed p"
      using a by simp
    then have "\<exists>older. processedLogIds w = older @ p_processed p" ..
    then show "p_processed p = drop (length (processedLogIds w) - 500) (processedLogIds w)
        \<and> length (p_processed p) \<le> 500
        \<and> length (p_processed p) = min 500 (length (processedLogIds w))
        \<and> (\<exists>older. processedLogIds w = older @ p_processed p)
        \<and> stateFile (tick st env w) = Some p"
      using a b by auto
  qed
  have writes: "(\<forall>n. writeFileSync env n = None) \<longrightarrow>
        (\<exists>p. WriteState p \<in> set (new_effects w (tick st env w)))"
  proof
    assume ok: "\<forall>n. writeFileSync env n = None"
    obtain cfg w1 where g: "getConfig st env w = (cfg, w1)"
      by (cases "getConfig st env w")
    obtain tip w2 where t: "getCurrentTip st env w1 = (tip, w2)"
      by (cases "getCurrentTip st env w1")
    from getConfig_trace [of st env w] g
    obtain es1 where es1: "trace w1 = trace w @ es1" by auto
    from getCurrentTip_trace [of st env w1] t
    obtain es2 where es2: "trace w2 = trace w1 @ es2" by auto
    from ok have "writeFileSync env (step w2) = None" by simp
    from tick_after_reads(4) [OF g t this]
    obtain p es where "trace (tick st env w) = trace w2 @ WriteState p # es" by blast
    then have "new_effects w (tick st env w) = es1 @ es2 @ WriteState p # es"
      using es1 es2 by (simp add: new_effects_def)
    then have "WriteState p \<in> set (new_effects w (tick st env w))" by simp
    then show "\<exists>p. WriteState p \<in> set (new_effects w (tick st env w))" ..
  qed
  from written writes show ?thesis ..
qed

text \<open>A tick in a world that holds 501 keys writes the last 500.\<close>

theorem tick_persists_last_500_witness:
  "WriteState crowded_file
     \<in> set (new_effects crowded_world (tick example_settings example_env crowded_world))
   \<and> length (processedLogIds crowded_world) = 501
   \<and> p_processed crowded_file = drop 1 (processedLogIds crowded_world)
   \<and> length (p_processed crowded_file) = 500"
proof -
  have l: "length (processedLogIds crowded_world) = 501"
    by (simp add: crowded_fields(1) length_many_keys)
  from tick_persists_last_500 [of crowded_world example_settings example_env]
    crowded_tick_writes l
  show ?thesis by simp
qed

section \<open>The remote config cache and the dispatcher: failures\<close>

text \<open>
  C8. When a read is attempted (no fresh snapshot) and it fails, \<open>getConfig\<close> returns
  all the same: the cached snapshot as it is when there is one, else the built-in
  default with threshold 200 and no inventory. The cache is left as it was, and the error
  is printed and logged with its message. With the default, a matched event is handled
  as one without inventory: no dispatch is made. (Every function of the model is total:
  a failing read is the value \<open>Inl err\<close>, which the catch block turns into a result.)
\<close>

theorem getConfig_read_failure:
  assumes "cache_hit (configCache w) (Date_now env (step w)) = None"
      and "readDispenserConfig env (Suc (step w)) = Inl err"
  shows "(case configCache w of
            Some e \<Rightarrow> fst (getConfig st env w) = data e
          | None \<Rightarrow> fst (getConfig st env w) =
              \<lparr>upvotesRequired = ''200'', queuedNFTCount = 0, queuedNFTs = [], lastUpdated = 0\<rparr>)
         \<and> configCache (snd (getConfig st env w)) = configCache w
         \<and> log_entries (new_effects w (snd (getConfig st env w))) =
             [Entry ''config_fetch_error'' ''error''
                [(''error'', JStr (message err)), (''stack'', JStr (stack err)),
                 (''dispenserAddress'', JStr (NORMALIZED_DISPENSER_ADDRESS st))]]
         \<and> Console (''[CONFIG_ERROR] Failed to fetch dispenser config: '' @ message err)
             \<in> set (new_effects w (snd (getConfig st env w)))
         \<and> (configCache w = None \<longrightarrow>
              (\<forall>l. matched st w l \<longrightarrow> dispatches (new_effects w (onLog st env w l)) = []))"
proof -
  have config: "(case configCache w of
            Some e \<Rightarrow> fst (getConfig st env w) = data e
          | None \<Rightarrow> fst (getConfig st env w) =
              \<lparr>upvotesRequired = ''200'', queuedNFTCount = 0, queuedNFTs = [], lastUpdated = 0\<rparr>)
         \<and> configCache (snd (getConfig st env w)) = configCache w
         \<and> log_entries (new_effects w (snd (getConfig st env w))) =
             [Entry ''config_fetch_error'' ''error''
                [(''error'', JStr (message err)), (''stack'', JStr (stack err)),
                 (''dispenserAddress'', JStr (NORMALIZED_DISPENSER_ADDRESS st))]]
         \<and> Console (''[CONFIG_ERROR] Failed to fetch dispenser config: '' @ message err)
             \<in> set (new_effects w (snd (getConfig st env w)))"
    using assms
    by (cases "configCache w")
       (simp_all add: getConfig_def effect_defs Let_def default_config_def new_effects_def
          log_entries_def)
  have downstream: "configCache w = None \<longrightarrow>
      (\<forall>l. matched st w l \<longrightarrow> dispatches (new_effects w (onLog st env w l)) = [])"
  proof (intro impI allI)
    fix l
    assume none: "configCache w = None" and m: "matched st w l"
    obtain cfg w2 where g: "getConfig st env (mark_seen st w l) = (cfg, w2)"
      by (cases "getConfig st env (mark_seen st w l)")
    from config none have "queuedNFTCount (fst (getConfig st env w)) = 0" by simp
    then have "queuedNFTCount (fst (getConfig st env (mark_seen st w l))) = 0"
      by (simp only: getConfig_after_mark_seen)
    with g have z: "queuedNFTCount cfg = 0" by simp
    from m g z show "dispatches (new_effects w (onLog st env w l)) = []"
      by (rule depleted_no_dispatch)
  qed
  from config downstream show ?thesis by blast
qed

text \<open>A failing read on a first start, and with a snapshot that has gone stale.\<close>

theorem getConfig_read_failure_witness:
  "cache_hit (configCache fresh_world) (Date_now offline_env (step fresh_world)) = None
   \<and> readDispenserConfig offline_env (Suc (step fresh_world))
       = Inl (Error ''fetch failed'' ''at readContract'')
   \<and> fst (getConfig example_settings offline_env fresh_world) =
       \<lparr>upvotesRequired = ''200'', queuedNFTCount = 0, queuedNFTs = [], lastUpdated = 0\<rparr>
   \<and> cache_hit (configCache stale_world) (Date_now offline_env (step stale_world)) = None
   \<and> readDispenserConfig offline_env (Suc (step stale_world))
       = Inl (Error ''fetch failed'' ''at readContract'')
   \<and> fst (getConfig example_settings offline_env stale_world) =
       \<lparr>upvotesRequired = toString 420, queuedNFTCount = 3,
        queuedNFTs = [toString 11, toString 12, toString 13], lastUpdated = 1700000000000\<rparr>
   \<and> configCache (snd (getConfig example_settings offline_env stale_world))
       = configCache stale_world"
proof -
  have a1: "cache_hit (configCache fresh_world) (Date_now offline_env (step fresh_world)) = None"
    by (simp add: model_defs example_defs)
  have a2: "readDispenserConfig offline_env (Suc (step fresh_world))
              = Inl (Error ''fetch failed'' ''at readContract'')"
    by (simp add: example_defs)
  have a3: "configCache fresh_world = None"
    by (simp add: model_defs example_defs)
  have b1: "cache_hit (configCache stale_world) (Date_now offline_env (step stale_world)) = None"
    by (simp add: model_defs example_defs)
  have b2: "readDispenserConfig offline_env (Suc (step stale_world))
              = Inl (Error ''fetch failed'' ''at readContract'')"
    by (simp add: example_defs)
  have b3: "configCache stale_world =
      Some \<lparr>timestamp = 1700000000000,
            data = \<lparr>upvotesRequired = toString 420, queuedNFTCount = 3,
                queuedNFTs = [toString 11, toString 12, toString 13],
                lastUpdated = 1700000000000\<rparr>\<rparr>"
    by (simp add: model_defs example_defs)
  from getConfig_read_failure [OF a1 a2, of example_settings]
       getConfig_read_failure [OF b1 b2, of example_settings] a1 a2 a3 b1 b2 b3
  show ?thesis by simp
qed

text \<open>
  C9. \<open>addUpvotesToDispenser\<close> always returns. It returns a transaction hash exactly
  when the gas-price read, the simulation and the submission all succeed, and the hash is
  the one the submission gave. Otherwise it returns \<open>null\<close>, and the error of the step
  that failed is printed and logged with its message.
\<close>

theorem addUpvotesToDispenser_soft_failure:
  "\<exists>r w'. addUpvotesToDispenser st env w user amount = (r, w') \<and>
     (case r of
        Some hash \<Rightarrow>
          (\<exists>g. getGasPrice env (step w) = Inr g
             \<and> simulateContract env (Suc (step w)) (addUpvotes_request st user amount g) = None
             \<and> writeContract env (Suc (Suc (step w))) (addUpvotes_request st user amount g)
                 = Inr hash)
      | None \<Rightarrow>
          (\<exists>err. (getGasPrice env (step w) = Inl err
                  \<or> (\<exists>g. getGasPrice env (step w) = Inr g
                        \<and> simulateContract env (Suc (step w))
                            (addUpvotes_request st user amount g) = Some err)
                  \<or> (\<exists>g. getGasPrice env (step w) = Inr g
                        \<and> simulateContract env (Suc (step w))
                            (addUpvotes_request st user amount g) = None
                        \<and> writeContract env (Suc (Suc (step w)))
                            (addUpvotes_request st user amount g) = Inl err))
             \<and> log_entries (new_effects w w') =
                 [Entry ''dispenser_call_error'' ''error''
                    [(''error'', JStr (message err)), (''stack'', JStr (stack err)),
                     (''user'', JStr user), (''amount'', JStr (toString amount)),
                     (''dispenserAddress'', JStr (NORMALIZED_DISPENSER_ADDRESS st))]]
             \<and> Console (''[DISPENSER_ERROR] Failed to call addUpvotes: '' @ message err)
                 \<in> set (new_effects w w')))"
  by (auto simp add: addUpvotesToDispenser_def dispenser_call_failed_def effect_defs Let_def
      new_effects_def log_entries_def split: option.splits sum.splits)

text \<open>
  Two runs of the dispatcher on a first start: the submission is accepted, and the
  simulation reverts.
\<close>

lemma addUpvotesToDispenser_examples:
  "fst (addUpvotesToDispenser example_settings example_env fresh_world
         (arg_user example_log) 420)
     = Some ''0x5c504ed432cb51138bcf09aa5e8a410dd4a1e204ef84bfed1be16dfba1b22060''"
  "fst (addUpvotesToDispenser example_settings revert_env fresh_world
         (arg_user example_log) 420) = None"
  "log_entries (new_effects fresh_world
     (snd (addUpvotesToDispenser example_settings revert_env fresh_world
            (arg_user example_log) 420)))
     = [Entry ''dispenser_call_error'' ''error''
          [(''error'', JStr ''execution reverted: Not owner''),
           (''stack'', JStr ''at simulateContract''),
           (''user'', JStr ''0xd8dA6BF26964aF9D7eEd9e03E53415D37aA96045''),
           (''amount'', JStr (toString 420)),
           (''dispenserAddress'', JStr ''0x7a250d5630B4cF539739dF2C5dAcb4c659F2488D'')]]"
  by (simp_all add: model_defs example_defs new_effects_def log_entries_def)

section \<open>The last processed block\<close>

text \<open>
  C10, as stated, fails: the matched example event, in block 31000000, finds an empty
  queue; the handler leaves the loop body before the block is tracked, and
  \<open>lastProcessedBlock\<close> stays 0.
\<close>

theorem depleted_event_block_not_tracked:
  "matched example_settings fresh_world example_log
   \<and> blockNumber example_log = Some 31000000
   \<and> lastProcessedBlock fresh_world = 0
   \<and> lastProcessedBlock (onLog example_settings depleted_env fresh_world example_log)
       \<noteq> max (lastProcessedBlock fresh_world) 31000000"
  by (simp add: matched_def model_defs example_defs)

text \<open>
  C10, amended. \<open>lastProcessedBlock\<close> never decreases: not by the handling of a log, of
  a batch, by a tick, or by any run of the event loop. After a matched event that found
  inventory, so that the dispatch was made, and that carries a block number,
  \<open>lastProcessedBlock\<close> is the maximum of its previous value and that block number
  (block heights are not negative); a matched event that found no inventory, and a log
  that is skipped or dropped, leave it as it was.
\<close>

theorem lastProcessedBlock_monotone:
  "lastProcessedBlock w \<le> lastProcessedBlock (onLog st env w l)
   \<and> lastProcessedBlock w \<le> lastProcessedBlock (onLogs st env w ls)
   \<and> lastProcessedBlock (tick st env w) = lastProcessedBlock w
   \<and> lastProcessedBlock w \<le> lastProcessedBlock (run st env w cs)
   \<and> (matched st w l
        \<and> queuedNFTCount (fst (getConfig st env (mark_seen st w l))) \<noteq> 0
        \<and> blockNumber l = Some b \<and> 0 \<le> lastProcessedBlock w
       \<longrightarrow> lastProcessedBlock (onLog st env w l) = max (lastProcessedBlock w) b)
   \<and> (matched st w l
        \<and> queuedNFTCount (fst (getConfig st env (mark_seen st w l))) \<noteq> 0
        \<and> blockNumber l = None
       \<longrightarrow> lastProcessedBlock (onLog st env w l) = lastProcessedBlock w)
   \<and> (matched st w l
        \<and> queuedNFTCount (fst (getConfig st env (mark_seen st w l))) = 0
       \<longrightarrow> lastProcessedBlock (onLog st env w l) = lastProcessedBlock w)
   \<and> (\<not> matched st w l \<longrightarrow> lastProcessedBlock (onLog st env w l) = lastProcessedBlock w)"
proof -
  obtain cfg w2 where g: "getConfig st env (mark_seen st w l) = (cfg, w2)"
    by (cases "getConfig st env (mark_seen st w l)")
  obtain h w3 where a: "addUpvotesToDispenser st env w2 (arg_user l) (REQUIRED_UPVOTES st) = (h, w3)"
    by (cases "addUpvotesToDispenser st env w2 (arg_user l) (REQUIRED_UPVOTES st)")
  have b2: "lastProcessedBlock w2 = lastProcessedBlock w"
    using getConfig_frame(2) [of st env "mark_seen st w l"] g by (simp add: mark_seen_fields)
  have b3: "lastProcessedBlock (report_award st l cfg h w3) = lastProcessedBlock w"
    using addUpvotes_frame(2) [of st env w2 "arg_user l" "REQUIRED_UPVOTES st"] a b2
    by (simp add: report_award_fields)
  have awarded: "matched st w l \<and> queuedNFTCount cfg \<noteq> 0 \<Longrightarrow>
      lastProcessedBlock (onLog st env w l) =
        (case blockNumber l of
           None \<Rightarrow> lastProcessedBlock w
         | Some b \<Rightarrow> if b \<noteq> 0 \<and> b > lastProcessedBlock w then b else lastProcessedBlock w)"
    using onLog_matched(2) [OF _ g _ a] b3
    by (auto simp: track_block_def split: option.splits)
  have depleted: "matched st w l \<and> queuedNFTCount cfg = 0 \<Longrightarrow>
      lastProcessedBlock (onLog st env w l) = lastProcessedBlock w"
    using onLog_matched(1) [OF _ g] b2 by (auto simp: report_depleted_fields)
  have c: "queuedNFTCount (fst (getConfig st env (mark_seen st w l))) = queuedNFTCount cfg"
    using g by simp
  show ?thesis
    using onLog_block_mono [of w st env l] onLogs_block_mono [of w st env ls]
      tick_frame(2) [of st env w] run_block_mono [of w st env cs]
      awarded depleted onLog_not_matched [of st w l env]
    by (auto simp: c max_def)
qed

text \<open>The example event in block 31000000 on a first start, with three NFTs queued.\<close>

theorem lastProcessedBlock_monotone_witness:
  "matched example_settings fresh_world example_log
   \<and> queuedNFTCount
       (fst (getConfig example_settings example_env
              (mark_seen example_settings fresh_world example_log))) \<noteq> 0
   \<and> blockNumber example_log = Some 31000000
   \<and> 0 \<le> lastProcessedBlock fresh_world
   \<and> lastProcessedBlock (onLog example_settings example_env fresh_world example_log)
       = max (lastProcessedBlock fresh_world) 31000000
   \<and> max (lastProcessedBlock fresh_world) 31000000 = (31000000 :: int)"
proof -
  have m: "matched example_settings fresh_world example_log"
    by (simp add: matched_def model_defs example_defs)
  have c: "queuedNFTCount
       (fst (getConfig example_settings example_env
              (mark_seen example_settings fresh_world example_log))) \<noteq> 0"
    by (simp add: model_defs example_defs)
  have b: "blockNumber example_log = Some 31000000"
    by (simp add: example_defs)
  have z: "lastProcessedBlock fresh_world = 0"
    by (simp add: model_defs example_defs)
  from lastProcessedBlock_monotone [of fresh_world example_settings example_env example_log
         "[]" "[]" 31000000] m c b z
  show ?thesis by simp
qed

end
